theory Spec2Isabelle
  imports Complex_Main
begin

section \<open>JavaScript values as the player reads them\<close>

text \<open>
  The music player of the application receives parsed JSON from two search services
  (Audius and Piped) and reads it with permissive property access. A parsed response is a
  value of \<open>json\<close>; \<open>JUndef\<close> is JavaScript's \<open>undefined\<close>, the value of an absent
  property. An object is the list of its own properties (keys distinct, as \<open>JSON.parse\<close>
  produces them).
\<close>

datatype json =
    JUndef
  | JNull
  | JBool bool
  | JNum int
  | JStr string
  | JArr "json list"
  | JObj "(string \<times> json) list"

datatype error = TypeError | FetchError | NoAudioStream

text \<open>What \<open>await fetch(...)\<close> followed by \<open>await res.json()\<close> gives: a rejection
  (network failure, body that is not JSON) or the parsed body.\<close>

datatype response = Rejected | Body json

text \<open>Truthiness, as \<open>||\<close>, \<open>&&\<close>, \<open>!\<close>, \<open>?:\<close> and \<open>filter\<close> use it.\<close>

fun truthy :: "json \<Rightarrow> bool" where
  "truthy JUndef = False"
| "truthy JNull = False"
| "truthy (JBool b) = b"
| "truthy (JNum n) = (n \<noteq> 0)"
| "truthy (JStr s) = (s \<noteq> [])"
| "truthy (JArr xs) = True"
| "truthy (JObj kvs) = True"

text \<open>\<open>a || b\<close> where evaluating \<open>b\<close> cannot throw.\<close>

definition js_or :: "json \<Rightarrow> json \<Rightarrow> json" where
  "js_or a b = (if truthy a then a else b)"

text \<open>Sequencing of computations that may throw: the first exception ends the block.\<close>

definition thenE :: "error + 'a \<Rightarrow> ('a \<Rightarrow> error + 'b) \<Rightarrow> error + 'b" where
  "thenE m f = (case m of Inl e \<Rightarrow> Inl e | Inr x \<Rightarrow> f x)"

text \<open>
  Property read \<open>v.k\<close> for the property names the player uses (none of them is a
  built-in property of a string, number, boolean or array): a TypeError on \<open>null\<close> and
  \<open>undefined\<close>, the property's value on an object that has it, \<open>undefined\<close> otherwise.
\<close>

fun getprop :: "json \<Rightarrow> string \<Rightarrow> error + json" where
  "getprop JUndef k = Inl TypeError"
| "getprop JNull k = Inl TypeError"
| "getprop (JObj kvs) k = Inr (case map_of kvs k of None \<Rightarrow> JUndef | Some v \<Rightarrow> v)"
| "getprop v k = Inr JUndef"

text \<open>\<open>v.slice(0, 6)\<close>: arrays and strings have the method; on any other value the call
  is a TypeError.\<close>

fun js_slice6 :: "json \<Rightarrow> error + json" where
  "js_slice6 (JArr xs) = Inr (JArr (take 6 xs))"
| "js_slice6 (JStr s) = Inr (JStr (take 6 s))"
| "js_slice6 v = Inl TypeError"

text \<open>\<open>Array.prototype.map\<close> with a callback that may throw: elements are visited in
  order and the first exception ends the traversal.\<close>

fun mapE :: "('a \<Rightarrow> error + 'b) \<Rightarrow> 'a list \<Rightarrow> error + 'b list" where
  "mapE f [] = Inr []"
| "mapE f (x # xs) = thenE (f x) (\<lambda>y. thenE (mapE f xs) (\<lambda>ys. Inr (y # ys)))"

text \<open>\<open>v.map(f)\<close>: only arrays have the method.\<close>

fun js_map :: "(json \<Rightarrow> error + 'b) \<Rightarrow> json \<Rightarrow> error + 'b list" where
  "js_map f (JArr xs) = mapE f xs"
| "js_map f v = Inl TypeError"

text \<open>\<open>s.split('v=')\<close>: the pieces of \<open>s\<close> between the occurrences of the separator,
  found left to right; the first argument collects the current piece in reverse.\<close>

fun split_v :: "string \<Rightarrow> string \<Rightarrow> string list" where
  "split_v acc (a # b # r) =
     (if a = CHR ''v'' \<and> b = CHR ''='' then rev acc # split_v [] r
      else split_v (a # acc) (b # r))"
| "split_v acc [a] = [rev (a # acc)]"
| "split_v acc [] = [rev acc]"

text \<open>\<open>url?.split('v=')[1]\<close>: \<open>undefined\<close> when \<open>url\<close> is \<open>null\<close> or \<open>undefined\<close>
  (optional chaining) or when the separator does not occur; a TypeError when \<open>url\<close> is
  any other value that is not a string.\<close>

fun split_v_second :: "json \<Rightarrow> error + json" where
  "split_v_second JUndef = Inr JUndef"
| "split_v_second JNull = Inr JUndef"
| "split_v_second (JStr s) =
     Inr (case split_v [] s of p # q # ps \<Rightarrow> JStr q | ps \<Rightarrow> JUndef)"
| "split_v_second v = Inl TypeError"

section \<open>Tracks and the two search adapters\<close>

text \<open>
  A track is the object literal built by \<open>searchMusic\<close>. Audius tracks carry \<open>stream\<close>,
  Piped (YouTube) tracks carry \<open>videoId\<close>; the property an object does not have reads
  as \<open>undefined\<close>.
\<close>

record track =
  source :: string
  title :: json
  artist :: json
  cover :: json
  stream :: json
  videoId :: json

text \<open>The callback of \<open>map\<close> over the Audius results.\<close>

definition audiusTrack :: "json \<Rightarrow> error + track" where
  "audiusTrack t =
     thenE (getprop t ''title'') (\<lambda>ttl.
     thenE (getprop t ''user'') (\<lambda>user.
     thenE (if truthy user
            then thenE (getprop user ''name'') (\<lambda>nm.
                  if truthy nm then Inr nm else getprop user ''handle'')
            else Inr user) (\<lambda>art.
     thenE (getprop t ''artwork'') (\<lambda>artwork.
     thenE (if truthy artwork
            then thenE (getprop artwork ''150x150'') (\<lambda>small.
                  if truthy small then Inr small else getprop artwork ''480x480'')
            else Inr artwork) (\<lambda>cov.
     thenE (getprop t ''stream'') (\<lambda>strm.
     thenE (if truthy strm then getprop strm ''url'' else Inr strm) (\<lambda>cond.
     thenE (if truthy cond then getprop strm ''url'' else Inr (JStr '''')) (\<lambda>url.
       Inr \<lparr> source = ''audius'',
             title = js_or ttl (JStr ''''),
             artist = js_or art (JStr ''''),
             cover = js_or cov (JStr ''''),
             stream = url,
             videoId = JUndef \<rparr>))))))))"

text \<open>The body of the first \<open>try\<close> block up to the value of \<open>audiusTracks\<close>:
  \<open>(dataAudius.data || []).slice(0, 6).map(...).filter((t) => t.stream)\<close>.\<close>

definition audiusTracks :: "response \<Rightarrow> error + track list" where
  "audiusTracks r =
     (case r of
        Rejected \<Rightarrow> Inl FetchError
      | Body dataAudius \<Rightarrow>
          thenE (getprop dataAudius ''data'') (\<lambda>d.
          thenE (js_slice6 (js_or d (JArr []))) (\<lambda>sl.
          thenE (js_map audiusTrack sl) (\<lambda>ts.
            Inr (filter (\<lambda>t. truthy (stream t)) ts)))))"

text \<open>The callback of \<open>map\<close> over the Piped results;
  \<open>videoId = item.id || item.url?.split('v=')[1] || item.url || ''\<close>.\<close>

definition youtubeTrack :: "json \<Rightarrow> error + track" where
  "youtubeTrack item =
     thenE (getprop item ''id'') (\<lambda>ident.
     thenE (if truthy ident then Inr ident
            else thenE (getprop item ''url'') (\<lambda>url.
                 thenE (split_v_second url) (\<lambda>piece.
                   if truthy piece then Inr piece
                   else Inr (js_or url (JStr ''''))))) (\<lambda>vid.
     thenE (getprop item ''title'') (\<lambda>ttl.
     thenE (getprop item ''uploader'') (\<lambda>upl.
     thenE (getprop item ''thumbnail'') (\<lambda>thumb.
       Inr \<lparr> source = ''youtube'',
             title = js_or ttl (JStr ''''),
             artist = js_or upl (JStr ''''),
             cover = js_or thumb (JStr ''''),
             stream = JUndef,
             videoId = vid \<rparr>)))))"

text \<open>The body of the second \<open>try\<close> block up to the value of \<open>youtubeTracks\<close>:
  \<open>items = dataYoutube.items || dataYoutube\<close>, then
  \<open>Array.isArray(items) ? items.slice(0, 6).map(...) : []\<close>.\<close>

definition youtubeTracks :: "response \<Rightarrow> error + track list" where
  "youtubeTracks r =
     (case r of
        Rejected \<Rightarrow> Inl FetchError
      | Body dataYoutube \<Rightarrow>
          thenE (getprop dataYoutube ''items'') (\<lambda>it.
            (case js_or it dataYoutube of
               JArr xs \<Rightarrow> mapE youtubeTrack (take 6 xs)
             | other \<Rightarrow> Inr [])))"

text \<open>
  \<open>searchMusic\<close>: the playlist it builds from the selected source filter and the two
  responses. Each adapter runs inside its own \<open>try\<close>; the \<open>catch\<close> logs and leaves
  \<open>tracks\<close> as it was. A provider the filter excludes is not fetched.
\<close>

definition searchTracks :: "string \<Rightarrow> response \<Rightarrow> response \<Rightarrow> track list" where
  "searchTracks flt rA rB =
     (let tracks0 = [];
          tracks1 =
            (if flt = ''all'' \<or> flt = ''audius''
             then (case audiusTracks rA of
                     Inl err \<Rightarrow> tracks0
                   | Inr audius \<Rightarrow> tracks0 @ audius)
             else tracks0);
          tracks2 =
            (if flt = ''all'' \<or> flt = ''youtube''
             then (case youtubeTracks rB of
                     Inl err \<Rightarrow> tracks1
                   | Inr youtube \<Rightarrow> tracks1 @ youtube)
             else tracks1)
      in tracks2)"

section \<open>The playback state\<close>

text \<open>
  The module-level variables of the player and the parts of the page that the handlers
  below write. The audio element is its source, its paused flag and its position; the
  model records the assignments and the \<open>play()\<close> and \<open>pause()\<close> calls the code makes
  (a rejected \<open>play()\<close> promise is caught and logged by the code). The first revision of
  the player (one panel that expands) shows or hides \<open>musicPlayer\<close>; the second revision
  has a mini player and a full player, each hidden by a CSS class. Titles, cover and
  icons are display only and are left out.
\<close>

record player =
  currentTrack :: "track option"
  currentPlaylist :: "track list"
  currentTrackIndex :: int
  isShuffle :: bool
  isRepeat :: bool
  audioSrc :: json
  audioPaused :: bool
  audioCurrentTime :: real
  playerShown :: bool
  isPlayerExpanded :: bool
  miniHidden :: bool
  fullHidden :: bool
  navHidden :: bool

text \<open>\<open>xs[i]\<close>: \<open>undefined\<close> (here \<open>None\<close>) outside the array.\<close>

definition at_index :: "'a list \<Rightarrow> int \<Rightarrow> 'a option" where
  "at_index xs i = (if 0 \<le> i \<and> i < int (length xs) then Some (xs ! nat i) else None)"

text \<open>\<open>xs.findIndex(p)\<close>: the first position whose element satisfies \<open>p\<close>, or \<open>-1\<close>.\<close>

fun findIndex :: "('a \<Rightarrow> bool) \<Rightarrow> 'a list \<Rightarrow> int" where
  "findIndex p [] = - 1"
| "findIndex p (x # xs) =
     (if p x then 0 else (let r = findIndex p xs in if r < 0 then - 1 else r + 1))"

text \<open>JavaScript's \<open>%\<close> on integers: the remainder takes the sign of the dividend.\<close>

definition jsRem :: "int \<Rightarrow> int \<Rightarrow> int" where
  "jsRem a b = sgn a * (\<bar>a\<bar> mod \<bar>b\<bar>)"

text \<open>\<open>Math.floor(Math.random() * n)\<close> for a draw \<open>r\<close> of \<open>Math.random()\<close>.\<close>

definition randomIndex :: "rat \<Rightarrow> nat \<Rightarrow> int" where
  "randomIndex r n = \<lfloor>r * of_nat n\<rfloor>"

section \<open>Resolving a Piped stream\<close>

text \<open>\<open>xs.find(cb)\<close> with a callback that may throw.\<close>

fun findE :: "(json \<Rightarrow> error + bool) \<Rightarrow> json list \<Rightarrow> error + json" where
  "findE cb [] = Inr JUndef"
| "findE cb (x # xs) = thenE (cb x) (\<lambda>hit. if hit then Inr x else findE cb xs)"

text \<open>\<open>v.find(cb)\<close>: only arrays have the method.\<close>

fun js_find :: "(json \<Rightarrow> error + bool) \<Rightarrow> json \<Rightarrow> error + json" where
  "js_find cb (JArr xs) = findE cb xs"
| "js_find cb v = Inl TypeError"

text \<open>The callback \<open>(s) => !s.videoOnly\<close>.\<close>

definition notVideoOnly :: "json \<Rightarrow> error + bool" where
  "notVideoOnly s = thenE (getprop s ''videoOnly'') (\<lambda>v. Inr (\<not> truthy v))"

text \<open>
  First revision, the \<open>try\<close> block of \<open>playTrack\<close>:
  \<open>audioStream = (info.audioStreams || []).find((s) => !s.videoOnly)\<close>, and the source
  is assigned only \<open>if (audioStream && audioStream.url)\<close>. \<open>Inr (Some url)\<close> is the
  assignment, \<open>Inr None\<close> the skipped one, \<open>Inl\<close> an exception that the \<open>catch\<close> logs.
\<close>

definition resolveStream_v1 :: "response \<Rightarrow> error + json option" where
  "resolveStream_v1 r =
     (case r of
        Rejected \<Rightarrow> Inl FetchError
      | Body info \<Rightarrow>
          thenE (getprop info ''audioStreams'') (\<lambda>a.
          thenE (js_find notVideoOnly (js_or a (JArr []))) (\<lambda>audioStream.
            if truthy audioStream
            then thenE (getprop audioStream ''url'') (\<lambda>u.
                   Inr (if truthy u then Some u else None))
            else Inr None)))"

text \<open>\<open>v[0]\<close> for the value of \<open>data?.audioStreams || []\<close>: the first element of an
  array, the first character of a string, the property \<open>0\<close> of an object.\<close>

fun js_first :: "json \<Rightarrow> json" where
  "js_first (JArr xs) = (case xs of [] \<Rightarrow> JUndef | x # rest \<Rightarrow> x)"
| "js_first (JStr s) = (case s of [] \<Rightarrow> JUndef | c # rest \<Rightarrow> JStr [c])"
| "js_first (JObj kvs) = (case map_of kvs ''0'' of None \<Rightarrow> JUndef | Some v \<Rightarrow> v)"
| "js_first v = JUndef"

text \<open>\<open>data?.audioStreams\<close>: \<open>undefined\<close> when \<open>data\<close> is \<open>null\<close> or \<open>undefined\<close>.\<close>

definition getprop_opt :: "json \<Rightarrow> string \<Rightarrow> json" where
  "getprop_opt v k = (case getprop v k of Inl e \<Rightarrow> JUndef | Inr x \<Rightarrow> x)"

text \<open>
  Second revision, the \<open>try\<close> block of \<open>playTrack\<close>:
  \<open>audioStream = (data?.audioStreams || [])[0]\<close>; with \<open>audioStream && audioStream.url\<close>
  the url is the source, otherwise the function logs and returns, as it does in the
  \<open>catch\<close>.
\<close>

definition resolveStream_v2 :: "response \<Rightarrow> error + json" where
  "resolveStream_v2 r =
     (case r of
        Rejected \<Rightarrow> Inl FetchError
      | Body data \<Rightarrow>
          (let audioStream = js_first (js_or (getprop_opt data ''audioStreams'') (JArr []))
           in if truthy audioStream
              then thenE (getprop audioStream ''url'') (\<lambda>u.
                     if truthy u then Inr u else Inl NoAudioStream)
              else Inl NoAudioStream))"

section \<open>First revision of the player\<close>

text \<open>
  \<open>playTrack(track)\<close>. The argument \<open>res\<close> is what the Piped stream lookup answers if
  the function asks. \<open>t === track\<close> compares object identity; the tracks of a playlist
  are compared by value here, and the comparison is reached only with a negative
  \<open>currentTrackIndex\<close>.
\<close>

definition playTrack_v1 :: "response \<Rightarrow> track \<Rightarrow> player \<Rightarrow> player" where
  "playTrack_v1 res track s =
     (let s1 = s\<lparr>currentTrack := Some track\<rparr>;
          s2 = (if currentTrackIndex s1 < 0
                then s1\<lparr>currentTrackIndex := findIndex (\<lambda>t. t = track) (currentPlaylist s1)\<rparr>
                else s1);
          s3 = s2\<lparr>playerShown := True\<rparr>
      in if source track = ''audius''
         then s3\<lparr>audioSrc := stream track, audioPaused := False\<rparr>
         else if source track = ''youtube''
         then (case resolveStream_v1 res of
                 Inr (Some url) \<Rightarrow> s3\<lparr>audioSrc := url, audioPaused := False\<rparr>
               | Inr None \<Rightarrow> s3
               | Inl err \<Rightarrow> s3)
         else s3)"

text \<open>
  The loop of \<open>playNext\<close> under shuffle:
  \<open>while (nextIndex === currentTrackIndex) nextIndex = Math.floor(Math.random() * length)\<close>.
  \<open>rnd k\<close> is the \<open>k\<close>-th value \<open>Math.random()\<close> returns; the loop need not end, and
  \<open>None\<close> is the run that never leaves it.
\<close>

partial_function (option) resample :: "(nat \<Rightarrow> rat) \<Rightarrow> nat \<Rightarrow> int \<Rightarrow> nat \<Rightarrow> int \<Rightarrow> int option" where
  "resample rnd len cur k nextIndex =
     (if nextIndex = cur
      then resample rnd len cur (Suc k) (randomIndex (rnd k) len)
      else Some nextIndex)"

declare resample.simps [code]

definition playNext_v1 :: "(nat \<Rightarrow> rat) \<Rightarrow> response \<Rightarrow> player \<Rightarrow> player option" where
  "playNext_v1 rnd res s =
     (if currentPlaylist s = [] then Some s
      else
        (case (if isShuffle s
               then (if length (currentPlaylist s) > 1
                     then resample rnd (length (currentPlaylist s)) (currentTrackIndex s) 0
                            (currentTrackIndex s)
                     else Some (currentTrackIndex s))
               else Some (jsRem (currentTrackIndex s + 1) (int (length (currentPlaylist s))))) of
           None \<Rightarrow> None
         | Some idx \<Rightarrow>
             (let s1 = s\<lparr>currentTrackIndex := idx\<rparr>
              in case at_index (currentPlaylist s1) idx of
                   None \<Rightarrow> Some s1
                 | Some nextTrack \<Rightarrow> Some (playTrack_v1 res nextTrack s1))))"

definition playPrev_v1 :: "response \<Rightarrow> player \<Rightarrow> player" where
  "playPrev_v1 res s =
     (if currentPlaylist s = [] then s
      else
        (let n = int (length (currentPlaylist s));
             s1 = s\<lparr>currentTrackIndex := jsRem (currentTrackIndex s - 1 + n) n\<rparr>
         in case at_index (currentPlaylist s1) (currentTrackIndex s1) of
              None \<Rightarrow> s1
            | Some prevTrack \<Rightarrow> playTrack_v1 res prevTrack s1))"

text \<open>The click handler of a result item: \<open>currentTrackIndex = index; playTrack(track)\<close>,
  for the item rendered at \<open>index\<close>.\<close>

definition selectItem_v1 :: "response \<Rightarrow> nat \<Rightarrow> player \<Rightarrow> player" where
  "selectItem_v1 res index s =
     (if index < length (currentPlaylist s)
      then playTrack_v1 res (currentPlaylist s ! index) (s\<lparr>currentTrackIndex := int index\<rparr>)
      else s)"

text \<open>The click handler of \<open>playerCloseBtn\<close>.\<close>

definition close_v1 :: "player \<Rightarrow> player" where
  "close_v1 s =
     s\<lparr>audioPaused := True, audioCurrentTime := 0, playerShown := False,
       isPlayerExpanded := False, navHidden := False\<rparr>"

section \<open>Second revision of the player\<close>

text \<open>\<open>showMini()\<close>.\<close>

definition showMini :: "player \<Rightarrow> player" where
  "showMini s = s\<lparr>miniHidden := False, fullHidden := True, navHidden := False\<rparr>"

text \<open>
  \<open>playTrack(track)\<close>. The argument is \<open>None\<close> when the caller passes \<open>undefined\<close> (an
  index outside the playlist): reading \<open>track.source\<close> then throws and the function
  ends after the statements before it. A failed stream lookup returns at the same place.
\<close>

definition playTrack_v2 :: "response \<Rightarrow> track option \<Rightarrow> player \<Rightarrow> player" where
  "playTrack_v2 res arg s =
     (let s1 = s\<lparr>currentTrack := arg\<rparr>;
          s2 = (if currentTrackIndex s1 < 0
                then s1\<lparr>currentTrackIndex := findIndex (\<lambda>t. Some t = arg) (currentPlaylist s1)\<rparr>
                else s1);
          s3 = s2\<lparr>audioPaused := True, audioSrc := JStr ''''\<rparr>
      in case arg of
           None \<Rightarrow> s3
         | Some track \<Rightarrow>
             (if source track = ''youtube''
              then (case resolveStream_v2 res of
                      Inl err \<Rightarrow> s3
                    | Inr url \<Rightarrow> showMini (s3\<lparr>audioSrc := url, audioPaused := False\<rparr>))
              else showMini (s3\<lparr>audioSrc := stream track, audioPaused := False\<rparr>)))"

definition playNext_v2 :: "rat \<Rightarrow> response \<Rightarrow> player \<Rightarrow> player" where
  "playNext_v2 r res s =
     (if currentPlaylist s = [] then s
      else
        (let n = length (currentPlaylist s);
             s1 = (if isShuffle s
                   then s\<lparr>currentTrackIndex := randomIndex r n\<rparr>
                   else s\<lparr>currentTrackIndex := jsRem (currentTrackIndex s + 1) (int n)\<rparr>)
         in playTrack_v2 res (at_index (currentPlaylist s1) (currentTrackIndex s1)) s1))"

definition playPrev_v2 :: "rat \<Rightarrow> response \<Rightarrow> player \<Rightarrow> player" where
  "playPrev_v2 r res s =
     (if currentPlaylist s = [] then s
      else
        (let n = length (currentPlaylist s);
             s1 = (if isShuffle s
                   then s\<lparr>currentTrackIndex := randomIndex r n\<rparr>
                   else s\<lparr>currentTrackIndex := jsRem (currentTrackIndex s - 1 + int n) (int n)\<rparr>)
         in playTrack_v2 res (at_index (currentPlaylist s1) (currentTrackIndex s1)) s1))"

text \<open>The click handler of a result item, the same statements as in the first
  revision.\<close>

definition selectItem_v2 :: "response \<Rightarrow> nat \<Rightarrow> player \<Rightarrow> player" where
  "selectItem_v2 res index s =
     (if index < length (currentPlaylist s)
      then playTrack_v2 res (Some (currentPlaylist s ! index)) (s\<lparr>currentTrackIndex := int index\<rparr>)
      else s)"

text \<open>The click handlers of \<open>miniCloseBtn\<close> and \<open>fullCloseBtn\<close> (the same statements).\<close>

definition close_v2 :: "player \<Rightarrow> player" where
  "close_v2 s =
     s\<lparr>audioPaused := True, audioCurrentTime := 0, miniHidden := True,
       fullHidden := True, navHidden := False\<rparr>"

text \<open>Repeated \<open>playNext()\<close> calls, one draw and one lookup answer per call; the states
  after each call, in order.\<close>

fun runNext_v2 :: "(rat \<times> response) list \<Rightarrow> player \<Rightarrow> player list" where
  "runNext_v2 [] s = []"
| "runNext_v2 (w # ws) s =
     (let s' = playNext_v2 (fst w) (snd w) s in s' # runNext_v2 ws s')"

fun runNext_v1 :: "((nat \<Rightarrow> rat) \<times> response) list \<Rightarrow> player \<Rightarrow> player list option" where
  "runNext_v1 [] s = Some []"
| "runNext_v1 (w # ws) s =
     (case playNext_v1 (fst w) (snd w) s of
        None \<Rightarrow> None
      | Some s' \<Rightarrow> (case runNext_v1 ws s' of None \<Rightarrow> None | Some rest \<Rightarrow> Some (s' # rest)))"

section \<open>Search, shuffle and the initial state\<close>

text \<open>\<open>searchMusic\<close> stores the playlist it built (\<open>currentPlaylist = tracks\<close>) and
  renders one item per track; no other variable of the player is written.\<close>

definition searchMusic :: "string \<Rightarrow> response \<Rightarrow> response \<Rightarrow> player \<Rightarrow> player" where
  "searchMusic flt rA rB s = s\<lparr>currentPlaylist := searchTracks flt rA rB\<rparr>"

text \<open>The shuffle button: \<open>isShuffle = !isShuffle\<close>.\<close>

definition toggleShuffle :: "player \<Rightarrow> player" where
  "toggleShuffle s = s\<lparr>isShuffle := \<not> isShuffle s\<rparr>"

text \<open>The variables as the script initialises them; a fresh audio element is paused
  with an empty source, and the player panels start hidden.\<close>

definition initialPlayer :: player where
  "initialPlayer =
     \<lparr> currentTrack = None, currentPlaylist = [], currentTrackIndex = - 1,
       isShuffle = False, isRepeat = False,
       audioSrc = JStr '''', audioPaused = True, audioCurrentTime = 0,
       playerShown = False, isPlayerExpanded = False,
       miniHidden = True, fullHidden = True, navHidden = False \<rparr>"

section \<open>Sample data for the worked examples\<close>

definition exampleAudius :: track where
  "exampleAudius =
     \<lparr> source = ''audius'', title = JStr ''Song A'', artist = JStr ''Artist A'',
       cover = JStr '''', stream = JStr ''https://a.example/stream'', videoId = JUndef \<rparr>"

definition exampleYoutube :: track where
  "exampleYoutube =
     \<lparr> source = ''youtube'', title = JStr ''Song B'', artist = JStr ''Uploader B'',
       cover = JStr '''', stream = JUndef, videoId = JStr ''vid1'' \<rparr>"

text \<open>A player in the middle of the first of two tracks, shuffle on.\<close>

definition examplePlayer :: player where
  "examplePlayer =
     \<lparr> currentTrack = Some exampleAudius,
       currentPlaylist = [exampleAudius, exampleYoutube], currentTrackIndex = 0,
       isShuffle = True, isRepeat = False,
       audioSrc = JStr ''https://a.example/stream'', audioPaused = False,
       audioCurrentTime = 42,
       playerShown = True, isPlayerExpanded = False,
       miniHidden = False, fullHidden = True, navHidden = False \<rparr>"

text \<open>An Audius search result with a stream url, and a Piped search result.\<close>

definition audiusItem :: "string \<Rightarrow> json" where
  "audiusItem name =
     JObj [(''title'', JStr name), (''user'', JObj [(''name'', JStr ''Artist A'')]),
           (''stream'', JObj [(''url'', JStr (''https://a.example/'' @ name))])]"

definition youtubeItem :: "string \<Rightarrow> json" where
  "youtubeItem ident =
     JObj [(''id'', JStr ident), (''title'', JStr ''Song B''), (''uploader'', JStr ''Uploader B'')]"

text \<open>A Piped stream answer whose first entry is video only and whose second is audio.\<close>

definition exampleStreams :: response where
  "exampleStreams =
     Body (JObj [(''audioStreams'', JArr
       [JObj [(''url'', JStr ''https://p.example/video''), (''videoOnly'', JBool True)],
        JObj [(''url'', JStr ''https://p.example/audio''), (''videoOnly'', JBool False)]])])"

text \<open>A session of the first revision: a search with two results, the second result
  played, shuffle switched on, then a search with a single result. The cursor still
  holds the index chosen in the first playlist.\<close>

definition twoResults :: response where
  "twoResults = Body (JObj [(''data'', JArr [audiusItem ''s1'', audiusItem ''s2''])])"

definition oneResult :: response where
  "oneResult = Body (JObj [(''data'', JArr [audiusItem ''s3''])])"

definition staleCursorPlayer :: player where
  "staleCursorPlayer =
     searchMusic ''audius'' oneResult Rejected
       (toggleShuffle
         (selectItem_v1 Rejected 1
           (searchMusic ''audius'' twoResults Rejected initialPlayer)))"

section \<open>Properties of the search\<close>

lemma thenE_Inr: "thenE m f = Inr y \<Longrightarrow> \<exists>x. m = Inr x \<and> f x = Inr y"
  by (cases m) (simp_all add: thenE_def)

lemma thenE_simps [simp]: "thenE (Inl e) f = Inl e" "thenE (Inr x) f = f x"
  by (simp_all add: thenE_def)

lemma mapE_length: "mapE f xs = Inr ys \<Longrightarrow> length ys = length xs"
proof (induction xs arbitrary: ys)
  case Nil
  then show ?case by simp
next
  case (Cons x xs)
  then show ?case by (auto dest!: thenE_Inr)
qed

lemma mapE_set: "mapE f xs = Inr ys \<Longrightarrow> y \<in> set ys \<Longrightarrow> \<exists>x\<in>set xs. f x = Inr y"
proof (induction xs arbitrary: ys)
  case Nil
  then show ?case by simp
next
  case (Cons x xs)
  then show ?case by (auto dest!: thenE_Inr)
qed

lemma audiusTrack_source: "audiusTrack t = Inr tr \<Longrightarrow> source tr = ''audius''"
  unfolding audiusTrack_def by (auto dest!: thenE_Inr)

lemma youtubeTrack_source: "youtubeTrack t = Inr tr \<Longrightarrow> source tr = ''youtube''"
  unfolding youtubeTrack_def by (auto dest!: thenE_Inr)

lemma youtubeTrack_videoId:
  "youtubeTrack t = Inr tr \<Longrightarrow> truthy (videoId tr) \<or> videoId tr = JStr ''''"
  unfolding youtubeTrack_def by (auto dest!: thenE_Inr simp: js_or_def split: if_splits)

lemma audiusTracks_Inr:
  assumes "audiusTracks r = Inr ts" and "t \<in> set ts"
  shows "source t = ''audius'' \<and> truthy (stream t)"
proof -
  from assms(1) obtain sl all_ts where m: "js_map audiusTrack sl = Inr all_ts"
    and f: "ts = filter (\<lambda>t. truthy (stream t)) all_ts"
    unfolding audiusTracks_def
    by (cases r) (auto dest!: thenE_Inr)
  from m obtain xs where "mapE audiusTrack xs = Inr all_ts"
    by (cases sl) simp_all
  moreover from f assms(2) have "t \<in> set all_ts" and "truthy (stream t)"
    by simp_all
  ultimately show ?thesis
    by (blast dest: mapE_set audiusTrack_source)
qed

lemma youtubeTracks_Inr:
  assumes "youtubeTracks r = Inr ts" and "t \<in> set ts"
  shows "source t = ''youtube'' \<and> (truthy (videoId t) \<or> videoId t = JStr '''')"
proof -
  from assms(1) have "ts = [] \<or> (\<exists>xs. mapE youtubeTrack xs = Inr ts)"
    unfolding youtubeTracks_def
    by (cases r) (auto dest!: thenE_Inr split: json.splits)
  with assms(2) obtain xs where "mapE youtubeTrack xs = Inr ts"
    by auto
  with assms(2) obtain x where "youtubeTrack x = Inr t"
    by (blast dest: mapE_set)
  then show ?thesis
    by (simp add: youtubeTrack_source youtubeTrack_videoId)
qed

lemma searchTracks_eq:
  "searchTracks flt rA rB =
     (if flt = ''all'' \<or> flt = ''audius''
      then (case audiusTracks rA of Inl e \<Rightarrow> [] | Inr ts \<Rightarrow> ts) else []) @
     (if flt = ''all'' \<or> flt = ''youtube''
      then (case youtubeTracks rB of Inl e \<Rightarrow> [] | Inr ts \<Rightarrow> ts) else [])"
  by (cases "flt = ''all''"; cases "flt = ''audius''"; cases "flt = ''youtube''";
      cases "audiusTracks rA"; cases "youtubeTracks rB"; simp add: searchTracks_def)

lemma searchTracks_subset:
  "set (searchTracks flt rA rB) \<subseteq>
     set (case audiusTracks rA of Inl e \<Rightarrow> [] | Inr ts \<Rightarrow> ts) \<union>
     set (case youtubeTracks rB of Inl e \<Rightarrow> [] | Inr ts \<Rightarrow> ts)"
  by (cases "flt = ''all'' \<or> flt = ''audius''"; cases "flt = ''all'' \<or> flt = ''youtube''";
      simp add: searchTracks_eq)

lemma searchTracks_set:
  assumes  "t \<in> set (searchTracks flt rA rB)"
  shows "(\<exists>ts. audiusTracks rA = Inr ts \<and> t \<in> set ts) \<or>
         (\<exists>ts. youtubeTracks rB = Inr ts \<and> t \<in> set ts)"
proof -
  have "t \<in> set (case audiusTracks rA of Inl e \<Rightarrow> [] | Inr ts \<Rightarrow> ts) \<or>
     t \<in> set (case youtubeTracks rB of Inl e \<Rightarrow> [] | Inr ts \<Rightarrow> ts)"
    using assms searchTracks_subset [of flt rA rB] by blast
  then show ?thesis
    by (cases "audiusTracks rA"; cases "youtubeTracks rB"; simp)
qed

lemma youtubeTrack_videoId_cases:
  assumes "youtubeTrack item = Inr t" and "getprop item ''id'' = Inr i"
  shows "(truthy i \<and> videoId t = i) \<or>
         (\<not> truthy i \<and> (\<exists>u piece. getprop item ''url'' = Inr u \<and> split_v_second u = Inr piece \<and>
            videoId t = (if truthy piece then piece else js_or u (JStr ''''))))"
proof (cases "truthy i")
  case True
  with assms show ?thesis
    unfolding youtubeTrack_def by (auto dest!: thenE_Inr)
next
  case False
  with assms obtain u piece vid where "getprop item ''url'' = Inr u"
    and "split_v_second u = Inr piece"
    and "(if truthy piece then Inr piece else Inr (js_or u (JStr ''''))) = (Inr vid :: error + json)"
    and "videoId t = vid"
    unfolding youtubeTrack_def by (auto dest!: thenE_Inr)
  with False show ?thesis
    by (auto split: if_splits)
qed

lemma split_v_second_truthy: "split_v_second u = Inr piece \<Longrightarrow> truthy piece \<Longrightarrow> truthy u"
  by (cases u) (auto split: list.splits)

lemma youtubeTrack_videoId_iff:
  assumes "youtubeTrack item = Inr t"
    and "getprop item ''id'' = Inr i" and "getprop item ''url'' = Inr u"
  shows "truthy (videoId t) = (truthy i \<or> truthy u)"
proof (cases "truthy i")
  case True
  with youtubeTrack_videoId_cases [OF assms(1,2)] show ?thesis
    by auto
next
  case False
  with youtubeTrack_videoId_cases [OF assms(1,2)] assms(3)
  obtain piece where p: "split_v_second u = Inr piece"
    and v: "videoId t = (if truthy piece then piece else js_or u (JStr ''''))"
    by auto
  show ?thesis
  proof (cases "truthy piece")
    case True
    with p v False show ?thesis
      by (simp add: split_v_second_truthy)
  next
    case np: False
    with v False show ?thesis
      by (simp add: js_or_def)
  qed
qed

text \<open>
  Claim C5, as amended. Every Audius track of a result list has a non-empty stream url:
  entries without one are filtered out before the list is stored and rendered. Piped
  tracks are listed unfiltered; their \<open>videoId\<close> is either non-empty or the empty string,
  and it is non-empty exactly when the item has a non-empty \<open>id\<close> or \<open>url\<close>.
\<close>

theorem result_list_stream_refs:
  "(\<forall>t \<in> set (searchTracks flt rA rB).
      (source t = ''audius'' \<longrightarrow> truthy (stream t)) \<and>
      (source t = ''youtube'' \<longrightarrow> truthy (videoId t) \<or> videoId t = JStr '''')) \<and>
   (\<forall>item t i u. youtubeTrack item = Inr t \<and> getprop item ''id'' = Inr i \<and>
      getprop item ''url'' = Inr u \<longrightarrow> truthy (videoId t) = (truthy i \<or> truthy u))"
proof (intro conjI ballI allI impI)
  fix t assume t: "t \<in> set (searchTracks flt rA rB)" and "source t = ''audius''"
  with searchTracks_set [OF t] show "truthy (stream t)"
    by (auto dest: audiusTracks_Inr youtubeTracks_Inr)
next
  fix t assume t: "t \<in> set (searchTracks flt rA rB)" and "source t = ''youtube''"
  with searchTracks_set [OF t] show "truthy (videoId t) \<or> videoId t = JStr ''''"
    by (auto dest: audiusTracks_Inr youtubeTracks_Inr)
next
  fix item t i u
  assume "youtubeTrack item = Inr t \<and> getprop item ''id'' = Inr i \<and>
      getprop item ''url'' = Inr u"
  then show "truthy (videoId t) = (truthy i \<or> truthy u)"
    by (elim conjE) (rule youtubeTrack_videoId_iff)
qed

theorem result_list_stream_refs_witness:
  "searchTracks ''all''
     (Body (JObj [(''data'', JArr [audiusItem ''s1'', JObj [(''title'', JStr ''no stream'')]])]))
     (Body (JArr [youtubeItem ''vid1''])) =
     [\<lparr>source = ''audius'', title = JStr ''s1'', artist = JStr ''Artist A'', cover = JStr '''',
        stream = JStr ''https://a.example/s1'', videoId = JUndef\<rparr>,
      \<lparr>source = ''youtube'', title = JStr ''Song B'', artist = JStr ''Uploader B'',
        cover = JStr '''', stream = JUndef, videoId = JStr ''vid1''\<rparr>] \<and>
   truthy (JStr ''https://a.example/s1'') \<and> truthy (JStr ''vid1'')"
proof -
  have eq: "searchTracks ''all''
     (Body (JObj [(''data'', JArr [audiusItem ''s1'', JObj [(''title'', JStr ''no stream'')]])]))
     (Body (JArr [youtubeItem ''vid1''])) =
     [\<lparr>source = ''audius'', title = JStr ''s1'', artist = JStr ''Artist A'', cover = JStr '''',
        stream = JStr ''https://a.example/s1'', videoId = JUndef\<rparr>,
      \<lparr>source = ''youtube'', title = JStr ''Song B'', artist = JStr ''Uploader B'',
        cover = JStr '''', stream = JUndef, videoId = JStr ''vid1''\<rparr>]"
    by (simp add: searchTracks_def Let_def audiusTracks_def youtubeTracks_def audiusTrack_def
        youtubeTrack_def js_or_def audiusItem_def youtubeItem_def)
  from result_list_stream_refs [of "''all''"
      "Body (JObj [(''data'', JArr [audiusItem ''s1'', JObj [(''title'', JStr ''no stream'')]])])"
      "Body (JArr [youtubeItem ''vid1''])"]
  show ?thesis
    unfolding eq by simp
qed

text \<open>A Piped item with neither \<open>id\<close> nor \<open>url\<close> is listed with an empty \<open>videoId\<close>.\<close>

theorem youtube_track_empty_videoId:
  "searchTracks ''all'' Rejected (Body (JArr [JObj [(''title'', JStr ''Song B'')]])) =
     [\<lparr>source = ''youtube'', title = JStr ''Song B'', artist = JStr '''', cover = JStr '''',
        stream = JUndef, videoId = JStr ''''\<rparr>] \<and>
   \<not> truthy (JStr '''')"
  by (simp add: searchTracks_def Let_def audiusTracks_def youtubeTracks_def youtubeTrack_def
      js_or_def)

lemma audiusTracks_array:
  assumes "getprop dataAudius ''data'' = Inr (JArr items)"
  shows "audiusTracks (Body dataAudius) =
         thenE (mapE audiusTrack (take 6 items)) (\<lambda>ts. Inr (filter (\<lambda>t. truthy (stream t)) ts))"
  using assms by (simp add: audiusTracks_def js_or_def)

lemma youtubeTracks_array:
  assumes "getprop dataYoutube ''items'' = Inr it" and "js_or it dataYoutube = JArr items"
  shows "youtubeTracks (Body dataYoutube) = mapE youtubeTrack (take 6 items)"
  using assms by (simp add: youtubeTracks_def)

lemma searchTracks_all:
  "searchTracks ''all'' rA rB =
     (case audiusTracks rA of Inl e \<Rightarrow> [] | Inr ts \<Rightarrow> ts) @
     (case youtubeTracks rB of Inl e \<Rightarrow> [] | Inr ts \<Rightarrow> ts)"
  by (simp add: searchTracks_eq)

lemma mapE_sources:
  assumes "mapE audiusTrack xs = Inr ta"
  shows "\<forall>t\<in>set ta. source t = ''audius''"
  using assms by (blast dest: mapE_set audiusTrack_source)

lemma mapE_sources_youtube:
  assumes "mapE youtubeTrack xs = Inr tb"
  shows "\<forall>t\<in>set tb. source t = ''youtube''"
  using assms by (blast dest: mapE_set youtubeTrack_source)

text \<open>
  Claim C6. With the filter \<open>all\<close>, when Audius answers an array of \<open>a\<close> entries and
  Piped an array of \<open>b\<close> entries, the playlist is the Audius tracks built from the first
  \<open>min a 6\<close> entries, those with a stream url kept, followed by the Piped tracks built
  from the first \<open>min b 6\<close> entries, each in the provider's order. When every Audius
  track has a stream url the playlist has \<open>min a 6 + min b 6\<close> entries, the Audius ones
  first; two Audius and three Piped tracks give five entries, Audius at 0 and 1.
\<close>

theorem search_all_merges_in_provider_order:
  assumes "getprop dataAudius ''data'' = Inr (JArr aItems)"
    and "mapE audiusTrack (take 6 aItems) = Inr ta"
    and "getprop dataYoutube ''items'' = Inr it"
    and "js_or it dataYoutube = JArr bItems"
    and "mapE youtubeTrack (take 6 bItems) = Inr tb"
  shows "searchTracks ''all'' (Body dataAudius) (Body dataYoutube) =
           filter (\<lambda>t. truthy (stream t)) ta @ tb \<and>
         length ta = min (length aItems) 6 \<and> length tb = min (length bItems) 6 \<and>
         (\<forall>t\<in>set ta. source t = ''audius'') \<and> (\<forall>t\<in>set tb. source t = ''youtube'') \<and>
         ((\<forall>t\<in>set ta. truthy (stream t)) \<longrightarrow>
            searchTracks ''all'' (Body dataAudius) (Body dataYoutube) = ta @ tb \<and>
            length (searchTracks ''all'' (Body dataAudius) (Body dataYoutube)) =
              min (length aItems) 6 + min (length bItems) 6 \<and>
            (\<forall>i < min (length aItems) 6.
               source (searchTracks ''all'' (Body dataAudius) (Body dataYoutube) ! i) = ''audius'') \<and>
            (\<forall>i < min (length bItems) 6.
               source (searchTracks ''all'' (Body dataAudius) (Body dataYoutube) !
                 (min (length aItems) 6 + i)) = ''youtube''))"
proof -
  let ?pl = "searchTracks ''all'' (Body dataAudius) (Body dataYoutube)"
  have eq: "?pl = filter (\<lambda>t. truthy (stream t)) ta @ tb"
    using assms
    by (simp add: searchTracks_all audiusTracks_array youtubeTracks_array)
  have la: "length ta = min (length aItems) 6"
    using mapE_length [OF assms(2)] by simp
  have lb: "length tb = min (length bItems) 6"
    using mapE_length [OF assms(5)] by simp
  have sa: "\<forall>t\<in>set ta. source t = ''audius''"
    by (rule mapE_sources [OF assms(2)])
  have sb: "\<forall>t\<in>set tb. source t = ''youtube''"
    by (rule mapE_sources_youtube [OF assms(5)])
  have full: "?pl = ta @ tb \<and>
      length ?pl = min (length aItems) 6 + min (length bItems) 6 \<and>
      (\<forall>i < min (length aItems) 6. source (?pl ! i) = ''audius'') \<and>
      (\<forall>i < min (length bItems) 6. source (?pl ! (min (length aItems) 6 + i)) = ''youtube'')"
    if all: "\<forall>t\<in>set ta. truthy (stream t)"
  proof -
    from all have "filter (\<lambda>t. truthy (stream t)) ta = ta"
      by simp
    with eq have pl: "?pl = ta @ tb" by simp
    have "\<forall>i < length ta. source ((ta @ tb) ! i) = ''audius''"
      using sa by (simp add: nth_append)
    moreover have "\<forall>i < length tb. source ((ta @ tb) ! (length ta + i)) = ''youtube''"
      using sb by simp
    ultimately show ?thesis
      using pl la lb by simp
  qed
  from eq la lb sa sb full show ?thesis
    by blast
qed

theorem search_all_merges_in_provider_order_witness:
  "map source (searchTracks ''all''
      (Body (JObj [(''data'', JArr [audiusItem ''s1'', audiusItem ''s2''])]))
      (Body (JArr [youtubeItem ''v1'', youtubeItem ''v2'', youtubeItem ''v3'']))) =
     [''audius'', ''audius'', ''youtube'', ''youtube'', ''youtube''] \<and>
   length (searchTracks ''all''
      (Body (JObj [(''data'', JArr [audiusItem ''s1'', audiusItem ''s2''])]))
      (Body (JArr [youtubeItem ''v1'', youtubeItem ''v2'', youtubeItem ''v3'']))) = 5"
proof -
  let ?dA = "JObj [(''data'', JArr [audiusItem ''s1'', audiusItem ''s2''])]"
  let ?dB = "JArr [youtubeItem ''v1'', youtubeItem ''v2'', youtubeItem ''v3'']"
  let ?ta = "[\<lparr>source = ''audius'', title = JStr ''s1'', artist = JStr ''Artist A'', cover = JStr '''',
        stream = JStr ''https://a.example/s1'', videoId = JUndef\<rparr>,
      \<lparr>source = ''audius'', title = JStr ''s2'', artist = JStr ''Artist A'', cover = JStr '''',
        stream = JStr ''https://a.example/s2'', videoId = JUndef\<rparr>]"
  let ?tb = "[\<lparr>source = ''youtube'', title = JStr ''Song B'', artist = JStr ''Uploader B'',
        cover = JStr '''', stream = JUndef, videoId = JStr ''v1''\<rparr>,
      \<lparr>source = ''youtube'', title = JStr ''Song B'', artist = JStr ''Uploader B'',
        cover = JStr '''', stream = JUndef, videoId = JStr ''v2''\<rparr>,
      \<lparr>source = ''youtube'', title = JStr ''Song B'', artist = JStr ''Uploader B'',
        cover = JStr '''', stream = JUndef, videoId = JStr ''v3''\<rparr>]"
  have h1: "getprop ?dA ''data'' = Inr (JArr [audiusItem ''s1'', audiusItem ''s2''])"
    by simp
  have h2: "mapE audiusTrack (take 6 [audiusItem ''s1'', audiusItem ''s2'']) = Inr ?ta"
    by (simp add: audiusTrack_def audiusItem_def js_or_def)
  have h3: "getprop ?dB ''items'' = Inr JUndef"
    by simp
  have h4: "js_or JUndef ?dB = JArr [youtubeItem ''v1'', youtubeItem ''v2'', youtubeItem ''v3'']"
    by (simp add: js_or_def)
  have h5: "mapE youtubeTrack (take 6 [youtubeItem ''v1'', youtubeItem ''v2'', youtubeItem ''v3'']) = Inr ?tb"
    by (simp add: youtubeTrack_def youtubeItem_def js_or_def)
  from search_all_merges_in_provider_order [OF h1 h2 h3 h4 h5]
  have "searchTracks ''all'' (Body ?dA) (Body ?dB) = filter (\<lambda>t. truthy (stream t)) ?ta @ ?tb"
    by (rule conjunct1)
  then show ?thesis
    by simp
qed

lemma mapE_throws:
  "x \<in> set xs \<Longrightarrow> f x = Inl e \<Longrightarrow> \<exists>e'. mapE f xs = Inl e'"
proof (induction xs)
  case Nil
  then show ?case by simp
next
  case (Cons y ys)
  show ?case
  proof (cases "f y")
    case (Inl a)
    then show ?thesis by simp
  next
    case (Inr b)
    with Cons have "x \<in> set ys" by auto
    from Cons.IH [OF this Cons.prems(2)] obtain e' where "mapE f ys = Inl e'" by blast
    with Inr show ?thesis by simp
  qed
qed

lemma audiusTracks_not_array:
  assumes "getprop body ''data'' = Inr d" and "\<forall>xs. d \<noteq> JArr xs"
  shows "(case audiusTracks (Body body) of Inl e' \<Rightarrow> [] | Inr ts \<Rightarrow> ts) = []"
  using assms by (cases d) (simp_all add: audiusTracks_def js_or_def)

lemma youtubeTracks_not_array:
  assumes "getprop body ''items'' = Inr it" and "\<forall>xs. js_or it body \<noteq> JArr xs"
  shows "youtubeTracks (Body body) = Inr []"
  using assms by (cases "js_or it body") (simp_all add: youtubeTracks_def)

lemma audiusTracks_null_item:
  assumes "getprop body ''data'' = Inr (JArr items)" and "JNull \<in> set (take 6 items)"
  shows "\<exists>e'. audiusTracks (Body body) = Inl e'"
proof -
  have "audiusTrack JNull = Inl TypeError"
    by (simp add: audiusTrack_def)
  from mapE_throws [of JNull "take 6 items" audiusTrack TypeError, OF assms(2) this] obtain e' where "mapE audiusTrack (take 6 items) = Inl e'"
    by blast
  then show ?thesis
    using assms(1) by (simp add: audiusTracks_array)
qed

text \<open>
  Claim C7. With the filter \<open>all\<close>, a provider whose fetch is rejected or whose response
  makes the adapter throw contributes nothing, and the playlist is what the other
  provider contributes; \<open>searchTracks\<close> itself always returns a playlist. A rejected
  fetch, a \<open>null\<close> body, an Audius \<open>data\<close> that is not an array, a \<open>null\<close> entry among
  the first six and a Piped \<open>items\<close> that is not an array all end in an empty
  contribution.
\<close>

theorem search_provider_failure_isolated:
  "(audiusTracks rA = Inl e \<longrightarrow>
      searchTracks ''all'' rA rB = (case youtubeTracks rB of Inl e' \<Rightarrow> [] | Inr ts \<Rightarrow> ts)) \<and>
   (youtubeTracks rB = Inl e \<longrightarrow>
      searchTracks ''all'' rA rB = (case audiusTracks rA of Inl e' \<Rightarrow> [] | Inr ts \<Rightarrow> ts)) \<and>
   audiusTracks Rejected = Inl FetchError \<and> youtubeTracks Rejected = Inl FetchError \<and>
   audiusTracks (Body JNull) = Inl TypeError \<and> youtubeTracks (Body JNull) = Inl TypeError \<and>
   (getprop body ''data'' = Inr d \<and> (\<forall>xs. d \<noteq> JArr xs) \<longrightarrow>
      (case audiusTracks (Body body) of Inl e' \<Rightarrow> [] | Inr ts \<Rightarrow> ts) = []) \<and>
   (getprop body ''data'' = Inr (JArr items) \<and> JNull \<in> set (take 6 items) \<longrightarrow>
      (\<exists>e'. audiusTracks (Body body) = Inl e')) \<and>
   (getprop body ''items'' = Inr it \<and> (\<forall>xs. js_or it body \<noteq> JArr xs) \<longrightarrow>
      youtubeTracks (Body body) = Inr [])"
proof (intro conjI impI)
  assume "audiusTracks rA = Inl e"
  then show "searchTracks ''all'' rA rB = (case youtubeTracks rB of Inl e' \<Rightarrow> [] | Inr ts \<Rightarrow> ts)"
    by (simp add: searchTracks_all)
next
  assume "youtubeTracks rB = Inl e"
  then show "searchTracks ''all'' rA rB = (case audiusTracks rA of Inl e' \<Rightarrow> [] | Inr ts \<Rightarrow> ts)"
    by (simp add: searchTracks_all)
next
  show "audiusTracks Rejected = Inl FetchError" by (simp add: audiusTracks_def)
  show "youtubeTracks Rejected = Inl FetchError" by (simp add: youtubeTracks_def)
  show "audiusTracks (Body JNull) = Inl TypeError" by (simp add: audiusTracks_def)
  show "youtubeTracks (Body JNull) = Inl TypeError" by (simp add: youtubeTracks_def)
next
  assume "getprop body ''data'' = Inr d \<and> (\<forall>xs. d \<noteq> JArr xs)"
  then show "(case audiusTracks (Body body) of Inl e' \<Rightarrow> [] | Inr ts \<Rightarrow> ts) = []"
    by (simp add: audiusTracks_not_array)
next
  assume "getprop body ''data'' = Inr (JArr items) \<and> JNull \<in> set (take 6 items)"
  then show "\<exists>e'. audiusTracks (Body body) = Inl e'"
    by (simp add: audiusTracks_null_item)
next
  assume "getprop body ''items'' = Inr it \<and> (\<forall>xs. js_or it body \<noteq> JArr xs)"
  then show "youtubeTracks (Body body) = Inr []"
    by (simp add: youtubeTracks_not_array)
qed

theorem search_provider_failure_isolated_witness:
  "searchTracks ''all'' Rejected (Body (JArr [youtubeItem ''vid1''])) =
     [\<lparr>source = ''youtube'', title = JStr ''Song B'', artist = JStr ''Uploader B'',
        cover = JStr '''', stream = JUndef, videoId = JStr ''vid1''\<rparr>] \<and>
   searchTracks ''all'' (Body (JObj [(''data'', JArr [audiusItem ''s1''])])) (Body JNull) =
     [\<lparr>source = ''audius'', title = JStr ''s1'', artist = JStr ''Artist A'', cover = JStr '''',
        stream = JStr ''https://a.example/s1'', videoId = JUndef\<rparr>] \<and>
   searchTracks ''all'' (Body (JObj [(''data'', JNum 5)])) (Body (JArr [youtubeItem ''vid1''])) =
     [\<lparr>source = ''youtube'', title = JStr ''Song B'', artist = JStr ''Uploader B'',
        cover = JStr '''', stream = JUndef, videoId = JStr ''vid1''\<rparr>]"
proof -
  have a: "audiusTracks Rejected = Inl FetchError"
    by (simp add: audiusTracks_def)
  have b: "youtubeTracks (Body JNull) = Inl TypeError"
    by (simp add: youtubeTracks_def)
  have c: "audiusTracks (Body (JObj [(''data'', JNum 5)])) = Inl TypeError"
    by (simp add: audiusTracks_def js_or_def)
  have y: "youtubeTracks (Body (JArr [youtubeItem ''vid1''])) =
     Inr [\<lparr>source = ''youtube'', title = JStr ''Song B'', artist = JStr ''Uploader B'',
        cover = JStr '''', stream = JUndef, videoId = JStr ''vid1''\<rparr>]"
    by (simp add: youtubeTracks_def youtubeTrack_def youtubeItem_def js_or_def)
  have x: "audiusTracks (Body (JObj [(''data'', JArr [audiusItem ''s1''])])) =
     Inr [\<lparr>source = ''audius'', title = JStr ''s1'', artist = JStr ''Artist A'', cover = JStr '''',
        stream = JStr ''https://a.example/s1'', videoId = JUndef\<rparr>]"
    by (simp add: audiusTracks_def audiusTrack_def audiusItem_def js_or_def)
  from search_provider_failure_isolated [of Rejected FetchError "Body (JArr [youtubeItem ''vid1''])"] a y
    search_provider_failure_isolated [of "Body (JObj [(''data'', JArr [audiusItem ''s1''])])" TypeError "Body JNull"] b x
    search_provider_failure_isolated [of "Body (JObj [(''data'', JNum 5)])" TypeError "Body (JArr [youtubeItem ''vid1''])"] c
  show ?thesis
    by simp
qed

section \<open>Properties of the cursor\<close>

text \<open>The remainder agrees with \<open>mod\<close> on the numbers \<open>playNext\<close> and \<open>playPrev\<close>
  apply it to, for a cursor that is \<open>-1\<close> or more.\<close>

lemma jsRem_nonneg: "0 \<le> a \<Longrightarrow> 0 < b \<Longrightarrow> jsRem a b = a mod b"
  by (cases "a = 0") (simp_all add: jsRem_def)

lemma jsRem_next: "- 1 \<le> c \<Longrightarrow> 0 < n \<Longrightarrow> jsRem (c + 1) n = (c + 1) mod n"
  by (simp add: jsRem_nonneg)

lemma jsRem_prev:
  assumes "- 1 \<le> c" and "0 < n"
  shows "jsRem (c - 1 + n) n = (c - 1) mod n"
proof (cases "0 \<le> c - 1 + n")
  case True
  with assms show ?thesis by (simp add: jsRem_nonneg)
next
  case False
  with assms have "c = - 1" and "n = 1" by auto
  then show ?thesis by (simp add: jsRem_def)
qed

lemma at_index_Some: "0 \<le> i \<Longrightarrow> i < int (length xs) \<Longrightarrow> at_index xs i = Some (xs ! nat i)"
  by (simp add: at_index_def)

lemma playTrack_v2_frame:
  "currentPlaylist (playTrack_v2 res arg s) = currentPlaylist s \<and>
   isShuffle (playTrack_v2 res arg s) = isShuffle s \<and>
   isRepeat (playTrack_v2 res arg s) = isRepeat s \<and>
   audioCurrentTime (playTrack_v2 res arg s) = audioCurrentTime s \<and>
   currentTrack (playTrack_v2 res arg s) = arg"
  by (cases arg; cases "resolveStream_v2 res") (simp_all add: playTrack_v2_def Let_def showMini_def)

lemma playTrack_v2_index:
  "0 \<le> currentTrackIndex s \<Longrightarrow> currentTrackIndex (playTrack_v2 res arg s) = currentTrackIndex s"
  by (cases arg; cases "resolveStream_v2 res") (simp_all add: playTrack_v2_def Let_def showMini_def)

lemma playTrack_v1_frame:
  "currentPlaylist (playTrack_v1 res track s) = currentPlaylist s \<and>
   isShuffle (playTrack_v1 res track s) = isShuffle s \<and>
   currentTrack (playTrack_v1 res track s) = Some track"
  by (simp add: playTrack_v1_def Let_def split: sum.splits option.splits)

lemma playTrack_v1_index:
  "0 \<le> currentTrackIndex s \<Longrightarrow> currentTrackIndex (playTrack_v1 res track s) = currentTrackIndex s"
  by (simp add: playTrack_v1_def Let_def split: sum.splits option.splits)

lemma playNext_v2_step:
  assumes "currentPlaylist s \<noteq> []" and "\<not> isShuffle s" and "- 1 \<le> currentTrackIndex s"
  shows "currentTrackIndex (playNext_v2 r res s) =
           (currentTrackIndex s + 1) mod int (length (currentPlaylist s))"
    and "currentPlaylist (playNext_v2 r res s) = currentPlaylist s"
    and "isShuffle (playNext_v2 r res s) = isShuffle s"
proof -
  let ?n = "int (length (currentPlaylist s))"
  from assms(1) have n: "0 < ?n" by simp
  have idx: "0 \<le> (currentTrackIndex s + 1) mod ?n"
    using n by simp
  show "currentTrackIndex (playNext_v2 r res s) = (currentTrackIndex s + 1) mod ?n"
    using assms idx by (simp add: playNext_v2_def Let_def jsRem_next playTrack_v2_index)
  show "currentPlaylist (playNext_v2 r res s) = currentPlaylist s"
    by (simp add: playNext_v2_def Let_def playTrack_v2_frame)
  show "isShuffle (playNext_v2 r res s) = isShuffle s"
    by (simp add: playNext_v2_def Let_def playTrack_v2_frame)
qed

lemma playPrev_v2_step:
  assumes "currentPlaylist s \<noteq> []" and "\<not> isShuffle s" and "- 1 \<le> currentTrackIndex s"
  shows "currentTrackIndex (playPrev_v2 r res s) =
           (currentTrackIndex s - 1) mod int (length (currentPlaylist s))"
    and "currentPlaylist (playPrev_v2 r res s) = currentPlaylist s"
    and "isShuffle (playPrev_v2 r res s) = isShuffle s"
proof -
  let ?n = "int (length (currentPlaylist s))"
  from assms(1) have n: "0 < ?n" by simp
  have idx: "0 \<le> (currentTrackIndex s - 1) mod ?n"
    using n by simp
  show "currentTrackIndex (playPrev_v2 r res s) = (currentTrackIndex s - 1) mod ?n"
    using assms idx n by (simp add: playPrev_v2_def Let_def jsRem_prev playTrack_v2_index)
  show "currentPlaylist (playPrev_v2 r res s) = currentPlaylist s"
    by (simp add: playPrev_v2_def Let_def playTrack_v2_frame)
  show "isShuffle (playPrev_v2 r res s) = isShuffle s"
    by (simp add: playPrev_v2_def Let_def playTrack_v2_frame)
qed

lemma playNext_v1_step:
  assumes "currentPlaylist s \<noteq> []" and "\<not> isShuffle s" and "- 1 \<le> currentTrackIndex s"
  shows "\<exists>s'. playNext_v1 rnd res s = Some s' \<and>
           currentTrackIndex s' = (currentTrackIndex s + 1) mod int (length (currentPlaylist s)) \<and>
           currentPlaylist s' = currentPlaylist s \<and> isShuffle s' = isShuffle s"
proof -
  let ?n = "int (length (currentPlaylist s))"
  let ?i = "(currentTrackIndex s + 1) mod ?n"
  from assms(1) have n: "0 < ?n" by simp
  then have idx: "0 \<le> ?i" "?i < ?n" by simp_all
  let ?s1 = "s\<lparr>currentTrackIndex := ?i\<rparr>"
  have "playNext_v1 rnd res s = Some (playTrack_v1 res (currentPlaylist s ! nat ?i) ?s1)"
    using assms idx by (simp add: playNext_v1_def Let_def jsRem_next at_index_Some)
  moreover have "currentTrackIndex (playTrack_v1 res (currentPlaylist s ! nat ?i) ?s1) = ?i"
    using idx by (simp add: playTrack_v1_index)
  ultimately show ?thesis
    by (simp add: playTrack_v1_frame)
qed

lemma playPrev_v1_step:
  assumes "currentPlaylist s \<noteq> []" and "- 1 \<le> currentTrackIndex s"
  shows "currentTrackIndex (playPrev_v1 res s) =
           (currentTrackIndex s - 1) mod int (length (currentPlaylist s))"
    and "currentPlaylist (playPrev_v1 res s) = currentPlaylist s"
    and "isShuffle (playPrev_v1 res s) = isShuffle s"
proof -
  let ?n = "int (length (currentPlaylist s))"
  let ?i = "(currentTrackIndex s - 1) mod ?n"
  from assms(1) have n: "0 < ?n" by simp
  then have idx: "0 \<le> ?i" "?i < ?n" by simp_all
  let ?s1 = "s\<lparr>currentTrackIndex := ?i\<rparr>"
  have eq: "playPrev_v1 res s = playTrack_v1 res (currentPlaylist s ! nat ?i) ?s1"
    using assms idx n by (simp add: playPrev_v1_def Let_def jsRem_prev at_index_Some)
  show "currentTrackIndex (playPrev_v1 res s) = ?i"
    using idx by (simp add: eq playTrack_v1_index)
  show "currentPlaylist (playPrev_v1 res s) = currentPlaylist s"
    by (simp add: eq playTrack_v1_frame)
  show "isShuffle (playPrev_v1 res s) = isShuffle s"
    by (simp add: eq playTrack_v1_frame)
qed

text \<open>No handler takes the cursor below \<open>-1\<close>, the value it starts with.\<close>

lemma findIndex_lower: "- 1 \<le> findIndex p xs"
  by (induction xs) (simp_all add: Let_def)

lemma playTrack_v2_lower:
  "- 1 \<le> currentTrackIndex s \<Longrightarrow> - 1 \<le> currentTrackIndex (playTrack_v2 res arg s)"
  by (cases arg; cases "resolveStream_v2 res")
     (simp_all add: playTrack_v2_def Let_def showMini_def findIndex_lower)

lemma playTrack_v1_lower:
  "- 1 \<le> currentTrackIndex s \<Longrightarrow> - 1 \<le> currentTrackIndex (playTrack_v1 res track s)"
  by (simp add: playTrack_v1_def Let_def findIndex_lower split: sum.splits option.splits)

lemma cursor_lower_bound:
  assumes "- 1 \<le> currentTrackIndex s"
  shows "- 1 \<le> currentTrackIndex (selectItem_v2 res i s)"
    and "- 1 \<le> currentTrackIndex (selectItem_v1 res i s)"
    and "- 1 \<le> currentTrackIndex (close_v2 s)"
    and "- 1 \<le> currentTrackIndex (close_v1 s)"
    and "- 1 \<le> currentTrackIndex (toggleShuffle s)"
    and "- 1 \<le> currentTrackIndex (searchMusic flt rA rB s)"
    and "- 1 \<le> currentTrackIndex initialPlayer"
  using assms
  by (simp_all add: selectItem_v2_def selectItem_v1_def close_v2_def close_v1_def
      toggleShuffle_def searchMusic_def initialPlayer_def playTrack_v2_lower playTrack_v1_lower)

subsection \<open>Repeated calls\<close>

lemma upt_shift: "[1..<Suc (Suc m)] = 1 # map Suc [1..<Suc m]"
  by (simp add: upt_conv_Cons map_Suc_upt del: upt_Suc)

lemma cursor_shift:
  "map (\<lambda>k. ((c + 1) mod n + int k) mod n) [1..<Suc m] =
   map ((\<lambda>k. (c + int k) mod n) \<circ> Suc) [1..<Suc m]" for c n :: int
proof (rule map_cong [OF refl])
  fix k assume "k \<in> set [1..<Suc m]"
  have "((c + 1) mod n + int k) mod n = (c + 1 + int k) mod n"
    by (simp add: mod_add_left_eq)
  then show "((c + 1) mod n + int k) mod n = ((\<lambda>k. (c + int k) mod n) \<circ> Suc) k"
    by (simp add: algebra_simps)
qed

lemma cursor_list_step:
  "(c + 1) mod n # map (\<lambda>k. ((c + 1) mod n + int k) mod n) [1..<Suc m] =
   map (\<lambda>k. (c + int k) mod n) [1..<Suc (Suc m)]" for c n :: int
proof -
  have "map (\<lambda>k. (c + int k) mod n) [1..<Suc (Suc m)] =
        map (\<lambda>k. (c + int k) mod n) (1 # map Suc [1..<Suc m])"
    by (simp only: upt_shift)
  also have "\<dots> = (c + int 1) mod n # map ((\<lambda>k. (c + int k) mod n) \<circ> Suc) [1..<Suc m]"
    by (simp only: list.map map_map)
  also have "\<dots> = (c + 1) mod n # map (\<lambda>k. ((c + 1) mod n + int k) mod n) [1..<Suc m]"
    by (simp only: cursor_shift of_nat_1)
  finally show ?thesis by simp
qed

lemma runNext_v2_cursors:
  assumes "currentPlaylist s \<noteq> []" and "\<not> isShuffle s" and "- 1 \<le> currentTrackIndex s"
  shows "map currentTrackIndex (runNext_v2 ws s) =
         map (\<lambda>k. (currentTrackIndex s + int k) mod int (length (currentPlaylist s)))
           [1..<Suc (length ws)]"
  using assms
proof (induction ws arbitrary: s)
  case Nil
  then show ?case by simp
next
  case (Cons w ws)
  let ?n = "int (length (currentPlaylist s))"
  let ?s' = "playNext_v2 (fst w) (snd w) s"
  note st = playNext_v2_step [OF Cons.prems, of "fst w" "snd w"]
  from Cons.prems(1) have "0 < ?n" by simp
  then have "0 \<le> (currentTrackIndex s + 1) mod ?n" by simp
  then have "- 1 \<le> (currentTrackIndex s + 1) mod ?n" by linarith
  with st have pre: "currentPlaylist ?s' \<noteq> []" "\<not> isShuffle ?s'" "- 1 \<le> currentTrackIndex ?s'"
    using Cons.prems by simp_all
  have "map currentTrackIndex (runNext_v2 (w # ws) s) =
        currentTrackIndex ?s' # map currentTrackIndex (runNext_v2 ws ?s')"
    by (simp add: Let_def)
  also have "\<dots> = (currentTrackIndex s + 1) mod ?n #
        map (\<lambda>k. ((currentTrackIndex s + 1) mod ?n + int k) mod ?n) [1..<Suc (length ws)]"
    using Cons.IH [OF pre] st by simp
  also have "\<dots> = map (\<lambda>k. (currentTrackIndex s + int k) mod ?n) [1..<Suc (length (w # ws))]"
    by (simp only: cursor_list_step length_Cons)
  finally show ?case .
qed

lemma runNext_v1_cursors:
  assumes "currentPlaylist s \<noteq> []" and "\<not> isShuffle s" and "- 1 \<le> currentTrackIndex s"
  shows "\<exists>tr. runNext_v1 ws s = Some tr \<and> map currentTrackIndex tr =
         map (\<lambda>k. (currentTrackIndex s + int k) mod int (length (currentPlaylist s)))
           [1..<Suc (length ws)]"
  using assms
proof (induction ws arbitrary: s)
  case Nil
  then show ?case by simp
next
  case (Cons w ws)
  let ?n = "int (length (currentPlaylist s))"
  from playNext_v1_step [OF Cons.prems, of "fst w" "snd w"]
  obtain s' where s': "playNext_v1 (fst w) (snd w) s = Some s'"
    and c': "currentTrackIndex s' = (currentTrackIndex s + 1) mod ?n"
    and p': "currentPlaylist s' = currentPlaylist s" and f': "isShuffle s' = isShuffle s"
    by blast
  from Cons.prems(1) have "0 < ?n" by simp
  then have "0 \<le> (currentTrackIndex s + 1) mod ?n" by simp
  then have "- 1 \<le> (currentTrackIndex s + 1) mod ?n" by linarith
  with c' p' f' have pre: "currentPlaylist s' \<noteq> []" "\<not> isShuffle s'" "- 1 \<le> currentTrackIndex s'"
    using Cons.prems by simp_all
  from Cons.IH [OF pre] obtain tr where tr: "runNext_v1 ws s' = Some tr"
    and m: "map currentTrackIndex tr =
      map (\<lambda>k. (currentTrackIndex s' + int k) mod int (length (currentPlaylist s'))) [1..<Suc (length ws)]"
    by blast
  have "runNext_v1 (w # ws) s = Some (s' # tr)"
    using s' tr by simp
  moreover have "map currentTrackIndex (s' # tr) =
      map (\<lambda>k. (currentTrackIndex s + int k) mod ?n) [1..<Suc (length (w # ws))]"
  proof -
    have "map currentTrackIndex (s' # tr) = (currentTrackIndex s + 1) mod ?n #
        map (\<lambda>k. ((currentTrackIndex s + 1) mod ?n + int k) mod ?n) [1..<Suc (length ws)]"
      using m c' p' by simp
    also have "\<dots> = map (\<lambda>k. (currentTrackIndex s + int k) mod ?n) [1..<Suc (length (w # ws))]"
      by (simp only: cursor_list_step length_Cons)
    finally show ?thesis .
  qed
  ultimately show ?case by blast
qed

lemma cycle_from_zero:
  "0 < n \<Longrightarrow> map (\<lambda>k. (0 + int k) mod int n) [1..<Suc n] = map int [1..<n] @ [0]"
proof -
  assume n: "0 < n"
  have "[1..<Suc n] = [1..<n] @ [n]" using n by simp
  moreover have "map (\<lambda>k. (0 + int k) mod int n) [1..<n] = map int [1..<n]"
    by (rule map_cong [OF refl]) simp
  ultimately show ?thesis by simp
qed

subsection \<open>Shuffle\<close>

text \<open>The first revision's loop ends as soon as a draw differs from the cursor, and
  then the cursor has moved to another index of the playlist; the second revision takes
  the first draw as it is.\<close>

lemma randomIndex_range:
  assumes "0 \<le> r" and "r < 1" and "0 < n"
  shows "0 \<le> randomIndex r n \<and> randomIndex r n < int n"
proof -
  have "0 \<le> r * of_nat n" using assms by simp
  moreover have "r * of_nat n < of_nat n"
    using assms by simp
  ultimately show ?thesis
    unfolding randomIndex_def by (simp add: floor_less_iff)
qed

lemma resample_exit: "nextIndex \<noteq> cur \<Longrightarrow> resample rnd len cur k nextIndex = Some nextIndex"
  by (subst resample.simps) simp

lemma resample_retry:
  "resample rnd len cur k cur = resample rnd len cur (Suc k) (randomIndex (rnd k) len)"
  by (subst resample.simps) simp

lemma resample_terminates:
  "randomIndex (rnd (k + j)) len \<noteq> cur \<Longrightarrow>
   \<exists>i\<le>j. resample rnd len cur k cur = Some (randomIndex (rnd (k + i)) len) \<and>
          randomIndex (rnd (k + i)) len \<noteq> cur"
proof (induction j arbitrary: k)
  case 0
  then show ?case
    by (simp add: resample_retry resample_exit)
next
  case (Suc j)
  show ?case
  proof (cases "randomIndex (rnd k) len = cur")
    case True
    from Suc.prems have "randomIndex (rnd (Suc k + j)) len \<noteq> cur" by simp
    from Suc.IH [OF this] obtain i where "i \<le> j"
      and "resample rnd len cur (Suc k) cur = Some (randomIndex (rnd (Suc k + i)) len)"
      and "randomIndex (rnd (Suc k + i)) len \<noteq> cur"
      by blast
    then have "Suc i \<le> Suc j \<and>
        resample rnd len cur k cur = Some (randomIndex (rnd (k + Suc i)) len) \<and>
        randomIndex (rnd (k + Suc i)) len \<noteq> cur"
      using True by (simp add: resample_retry)
    then show ?thesis by blast
  next
    case False
    then have "resample rnd len cur k cur = Some (randomIndex (rnd (k + 0)) len)"
      by (simp add: resample_retry resample_exit)
    with False show ?thesis by auto
  qed
qed

lemma playNext_v1_shuffle_distinct:
  assumes len: "1 < length (currentPlaylist s)" and sh: "isShuffle s"
    and rng: "\<forall>k. 0 \<le> rnd k \<and> rnd k < 1"
    and ex: "randomIndex (rnd j) (length (currentPlaylist s)) \<noteq> currentTrackIndex s"
  shows "\<exists>s'. playNext_v1 rnd res s = Some s' \<and>
           currentTrackIndex s' \<noteq> currentTrackIndex s \<and>
           0 \<le> currentTrackIndex s' \<and> currentTrackIndex s' < int (length (currentPlaylist s))"
proof -
  let ?n = "length (currentPlaylist s)"
  from ex have "randomIndex (rnd (0 + j)) ?n \<noteq> currentTrackIndex s" by simp
  from resample_terminates [of rnd 0 j ?n "currentTrackIndex s", OF this] obtain i
    where r: "resample rnd ?n (currentTrackIndex s) 0 (currentTrackIndex s) =
              Some (randomIndex (rnd i) ?n)"
      and d: "randomIndex (rnd i) ?n \<noteq> currentTrackIndex s"
    by auto
  let ?idx = "randomIndex (rnd i) ?n"
  from len have "0 < ?n" by arith
  moreover from rng have "0 \<le> rnd i" and "rnd i < 1" by simp_all
  ultimately have b: "0 \<le> ?idx" "?idx < int ?n"
    using randomIndex_range [of "rnd i" ?n] by blast+
  let ?s1 = "s\<lparr>currentTrackIndex := ?idx\<rparr>"
  from len have ne: "currentPlaylist s \<noteq> []" by auto
  have "playNext_v1 rnd res s = Some (playTrack_v1 res (currentPlaylist s ! nat ?idx) ?s1)"
    using ne sh len r b by (simp add: playNext_v1_def Let_def at_index_Some)
  moreover have "currentTrackIndex (playTrack_v1 res (currentPlaylist s ! nat ?idx) ?s1) = ?idx"
    using b by (simp add: playTrack_v1_index)
  ultimately show ?thesis
    using d b by simp
qed

lemma playNext_v2_shuffle_range:
  assumes "currentPlaylist s \<noteq> []" and "isShuffle s" and "0 \<le> r" and "r < 1"
  shows "currentTrackIndex (playNext_v2 r res s) = randomIndex r (length (currentPlaylist s)) \<and>
         0 \<le> currentTrackIndex (playNext_v2 r res s) \<and>
         currentTrackIndex (playNext_v2 r res s) < int (length (currentPlaylist s))"
proof -
  from assms have b: "0 \<le> randomIndex r (length (currentPlaylist s))"
      "randomIndex r (length (currentPlaylist s)) < int (length (currentPlaylist s))"
    using randomIndex_range [of r "length (currentPlaylist s)"] by simp_all
  then show ?thesis
    using assms by (simp add: playNext_v2_def Let_def playTrack_v2_index)
qed

lemma randomIndex_quarter: "randomIndex (1 / 4) (Suc (Suc 0)) = 0"
  by (simp add: randomIndex_def floor_eq_iff)

text \<open>
  Claim C1 asks that \<open>playNext\<close> under shuffle never lands on the index it started from
  when the playlist has more than one track. The second revision assigns
  \<open>Math.floor(Math.random() * length)\<close> without comparing it with the cursor: with two
  tracks, the cursor at 0 and a draw of one quarter, the cursor stays at 0.
\<close>

theorem shuffle_next_may_repeat:
  "isShuffle examplePlayer \<and> length (currentPlaylist examplePlayer) = 2 \<and>
   currentTrackIndex examplePlayer = 0 \<and>
   currentTrackIndex (playNext_v2 (1 / 4) Rejected examplePlayer) = 0"
  by (simp add: examplePlayer_def exampleAudius_def exampleYoutube_def playNext_v2_def
      playTrack_v2_def randomIndex_quarter at_index_def showMini_def Let_def)

lemma staleCursorPlayer_value: "staleCursorPlayer = \<lparr>currentTrack =
    Some
     \<lparr>source = ''audius'', title = JStr ''s2'', artist = JStr ''Artist A'',
        cover = JStr [], stream = JStr ''https://a.example/s2'',
        videoId = JUndef\<rparr>,
    currentPlaylist =
      [\<lparr>source = ''audius'', title = JStr ''s3'', artist = JStr ''Artist A'',
          cover = JStr [], stream = JStr ''https://a.example/s3'',
          videoId = JUndef\<rparr>],
    currentTrackIndex = 1, isShuffle = True, isRepeat = False,
    audioSrc = JStr ''https://a.example/s2'', audioPaused = False,
    audioCurrentTime = 0, playerShown = True, isPlayerExpanded = False,
    miniHidden = True, fullHidden = True, navHidden = False\<rparr>"
  by (simp add: staleCursorPlayer_def twoResults_def oneResult_def searchMusic_def toggleShuffle_def
      selectItem_v1_def playTrack_v1_def initialPlayer_def searchTracks_def audiusTracks_def
      audiusTrack_def audiusItem_def js_or_def Let_def)

text \<open>
  Claim C10 asks that the cursor lies inside the playlist after \<open>playNext\<close>. In the first
  revision, under shuffle and with a single track, the loop is skipped and the cursor
  keeps its value, also when that value is outside the playlist: an index left over from
  a longer playlist, or \<open>-1\<close> when nothing was selected yet.
\<close>

theorem shuffle_single_track_keeps_cursor:
  "playNext_v1 rnd res staleCursorPlayer = Some staleCursorPlayer \<and>
   isShuffle staleCursorPlayer \<and>
   length (currentPlaylist staleCursorPlayer) = 1 \<and>
   currentTrackIndex staleCursorPlayer = 1 \<and>
   playNext_v1 rnd res (toggleShuffle (searchMusic ''audius'' oneResult Rejected initialPlayer)) =
     Some (toggleShuffle (searchMusic ''audius'' oneResult Rejected initialPlayer)) \<and>
   length (currentPlaylist (toggleShuffle (searchMusic ''audius'' oneResult Rejected initialPlayer))) = 1 \<and>
   currentTrackIndex (toggleShuffle (searchMusic ''audius'' oneResult Rejected initialPlayer)) = - 1"
  by (simp add: staleCursorPlayer_value playNext_v1_def at_index_def oneResult_def searchMusic_def toggleShuffle_def
      initialPlayer_def searchTracks_def audiusTracks_def
      audiusTrack_def audiusItem_def js_or_def Let_def)

subsection \<open>Cyclic order and the round trip\<close>

text \<open>
  Claim C8. On a non-empty playlist with shuffle off, \<open>playNext\<close> moves the cursor to
  \<open>(cursor + 1) mod length\<close>; the \<open>k\<close>-th of repeated calls leaves it at
  \<open>(cursor + k) mod length\<close>, so from index 0 the calls visit 1, 2, ... in order and are
  back at 0 after exactly \<open>length\<close> calls, and from index 2 of five tracks three calls
  give 3, 4, 0. The cursor is \<open>-1\<close> or an index, as every handler leaves it.
\<close>

theorem next_visits_cyclic_order:
  assumes "currentPlaylist s \<noteq> []" and "\<not> isShuffle s" and "- 1 \<le> currentTrackIndex s"
  shows "currentTrackIndex (playNext_v2 r res s) =
           (currentTrackIndex s + 1) mod int (length (currentPlaylist s)) \<and>
         (\<exists>s'. playNext_v1 rnd res s = Some s' \<and>
            currentTrackIndex s' = (currentTrackIndex s + 1) mod int (length (currentPlaylist s))) \<and>
         map currentTrackIndex (runNext_v2 ws s) =
           map (\<lambda>k. (currentTrackIndex s + int k) mod int (length (currentPlaylist s)))
             [1..<Suc (length ws)] \<and>
         (\<exists>tr. runNext_v1 ws1 s = Some tr \<and> map currentTrackIndex tr =
           map (\<lambda>k. (currentTrackIndex s + int k) mod int (length (currentPlaylist s)))
             [1..<Suc (length ws1)]) \<and>
         (currentTrackIndex s = 0 \<and> length ws = length (currentPlaylist s) \<longrightarrow>
            map currentTrackIndex (runNext_v2 ws s) =
              map int [1..<length (currentPlaylist s)] @ [0]) \<and>
         (length (currentPlaylist s) = 5 \<and> currentTrackIndex s = 2 \<and> length ws = 3 \<longrightarrow>
            map currentTrackIndex (runNext_v2 ws s) = [3, 4, 0])"
proof -
  let ?n = "length (currentPlaylist s)"
  note run = runNext_v2_cursors [OF assms, of ws]
  have one: "currentTrackIndex (playNext_v2 r res s) = (currentTrackIndex s + 1) mod int ?n"
    by (rule playNext_v2_step(1) [OF assms])
  have one1: "\<exists>s'. playNext_v1 rnd res s = Some s' \<and>
      currentTrackIndex s' = (currentTrackIndex s + 1) mod int ?n"
    using playNext_v1_step [OF assms, of rnd res] by blast
  have run1: "\<exists>tr. runNext_v1 ws1 s = Some tr \<and> map currentTrackIndex tr =
      map (\<lambda>k. (currentTrackIndex s + int k) mod int ?n) [1..<Suc (length ws1)]"
    by (rule runNext_v1_cursors [OF assms])
  have cyc: "map currentTrackIndex (runNext_v2 ws s) = map int [1..<?n] @ [0]"
    if "currentTrackIndex s = 0 \<and> length ws = ?n"
  proof -
    from assms(1) have "0 < ?n" by simp
    from cycle_from_zero [OF this] run that show ?thesis by simp
  qed
  have scen: "map currentTrackIndex (runNext_v2 ws s) = [3, 4, 0]"
    if "?n = 5 \<and> currentTrackIndex s = 2 \<and> length ws = 3"
  proof -
    have "[1..<Suc 3] = [1, 2, 3]"
      by (simp add: upt_conv_Cons)
    with run that show ?thesis by simp
  qed
  from one one1 run run1 cyc scen show ?thesis
    by blast
qed

theorem next_visits_cyclic_order_witness:
  "map currentTrackIndex
     (runNext_v2 [(0, Rejected), (0, Rejected), (0, Rejected)]
        (examplePlayer\<lparr>currentPlaylist :=
             [exampleAudius, exampleYoutube, exampleAudius, exampleYoutube, exampleAudius],
           currentTrackIndex := 2, isShuffle := False\<rparr>)) = [3, 4, 0]"
proof -
  let ?s = "examplePlayer\<lparr>currentPlaylist :=
             [exampleAudius, exampleYoutube, exampleAudius, exampleYoutube, exampleAudius],
           currentTrackIndex := 2, isShuffle := False\<rparr>"
  have h1: "currentPlaylist ?s \<noteq> []" by simp
  have h2: "\<not> isShuffle ?s" by simp
  have h3: "- 1 \<le> currentTrackIndex ?s" by simp
  from next_visits_cyclic_order [OF h1 h2 h3, of _ _ _ "[(0, Rejected), (0, Rejected), (0, Rejected)]"]
  show ?thesis
    by simp
qed

text \<open>
  Claim C9. On a non-empty playlist with shuffle off and the cursor on one of its tracks,
  \<open>playPrev\<close> followed by \<open>playNext\<close> leaves the cursor where it was.
\<close>

theorem previous_then_next_roundtrip:
  assumes "currentPlaylist s \<noteq> []" and "\<not> isShuffle s"
    and "0 \<le> currentTrackIndex s" and "currentTrackIndex s < int (length (currentPlaylist s))"
  shows "currentTrackIndex (playNext_v2 r2 res2 (playPrev_v2 r1 res1 s)) = currentTrackIndex s \<and>
         (\<exists>s'. playNext_v1 rnd res2 (playPrev_v1 res1 s) = Some s' \<and>
            currentTrackIndex s' = currentTrackIndex s)"
proof -
  let ?n = "int (length (currentPlaylist s))"
  let ?c = "currentTrackIndex s"
  from assms(1) have n: "0 < ?n" by simp
  from assms(3) have lo: "- 1 \<le> ?c" by simp
  have rt: "((?c - 1) mod ?n + 1) mod ?n = ?c"
  proof -
    have "((?c - 1) mod ?n + 1) mod ?n = (?c - 1 + 1) mod ?n"
      by (simp add: mod_add_left_eq)
    then show ?thesis using assms(3,4) by simp
  qed
  have nonneg: "- 1 \<le> (?c - 1) mod ?n"
  proof -
    from n have "0 \<le> (?c - 1) mod ?n" by simp
    then show ?thesis by linarith
  qed
  \<comment> \<open>second revision\<close>
  let ?p2 = "playPrev_v2 r1 res1 s"
  note p2 = playPrev_v2_step [OF assms(1,2) lo, of r1 res1]
  have pre2: "currentPlaylist ?p2 \<noteq> []" "\<not> isShuffle ?p2" "- 1 \<le> currentTrackIndex ?p2"
    using p2 assms(1,2) nonneg by simp_all
  have v2: "currentTrackIndex (playNext_v2 r2 res2 ?p2) = ?c"
    using playNext_v2_step(1) [OF pre2, of r2 res2] p2 rt by simp
  \<comment> \<open>first revision\<close>
  let ?p1 = "playPrev_v1 res1 s"
  note p1 = playPrev_v1_step [OF assms(1) lo, of res1]
  have pre1: "currentPlaylist ?p1 \<noteq> []" "\<not> isShuffle ?p1" "- 1 \<le> currentTrackIndex ?p1"
    using p1 assms(1,2) nonneg by simp_all
  from playNext_v1_step [OF pre1, of rnd res2] obtain s'
    where "playNext_v1 rnd res2 ?p1 = Some s'"
      and "currentTrackIndex s' = (currentTrackIndex ?p1 + 1) mod int (length (currentPlaylist ?p1))"
    by blast
  with p1 rt have "playNext_v1 rnd res2 ?p1 = Some s' \<and> currentTrackIndex s' = ?c"
    by simp
  with v2 show ?thesis by blast
qed

theorem previous_then_next_roundtrip_witness:
  "currentTrackIndex
     (playNext_v2 0 Rejected
       (playPrev_v2 0 Rejected (examplePlayer\<lparr>isShuffle := False\<rparr>))) = 0 \<and>
   (\<exists>s'. playNext_v1 (\<lambda>k. 0) Rejected
            (playPrev_v1 Rejected (examplePlayer\<lparr>isShuffle := False\<rparr>)) = Some s' \<and>
          currentTrackIndex s' = 0)"
proof -
  let ?s = "examplePlayer\<lparr>isShuffle := False\<rparr>"
  have h1: "currentPlaylist ?s \<noteq> []" by (simp add: examplePlayer_def)
  have h2: "\<not> isShuffle ?s" by simp
  have h3: "0 \<le> currentTrackIndex ?s" by (simp add: examplePlayer_def)
  have h4: "currentTrackIndex ?s < int (length (currentPlaylist ?s))" by (simp add: examplePlayer_def)
  have c: "currentTrackIndex ?s = 0" by (simp add: examplePlayer_def)
  from previous_then_next_roundtrip [OF h1 h2 h3 h4, of 0 Rejected 0 Rejected "\<lambda>k. 0"]
  show ?thesis
    unfolding c .
qed

section \<open>Properties of stream resolution and of closing\<close>

lemma findE_no_null:
  assumes "\<forall>x\<in>set xs. x \<noteq> JNull \<and> x \<noteq> JUndef"
  shows "findE notVideoOnly xs =
         Inr (case find (\<lambda>x. \<not> truthy (getprop_opt x ''videoOnly'')) xs of
                None \<Rightarrow> JUndef | Some a \<Rightarrow> a)"
  using assms
proof (induction xs)
  case Nil
  then show ?case by simp
next
  case (Cons x xs)
  from Cons.prems have nn: "x \<noteq> JNull" "x \<noteq> JUndef" by simp_all
  then obtain v where v: "getprop x ''videoOnly'' = Inr v"
    by (cases x) simp_all
  then have opt: "getprop_opt x ''videoOnly'' = v"
    by (simp add: getprop_opt_def)
  from Cons.prems have "\<forall>y\<in>set xs. y \<noteq> JNull \<and> y \<noteq> JUndef" by simp
  from Cons.IH [OF this] v opt show ?case
    by (simp add: notVideoOnly_def)
qed

lemma getprop_truthy: "truthy a \<Longrightarrow> getprop a k = Inr (getprop_opt a k)"
  by (cases a) (simp_all add: getprop_opt_def)

lemma resolveStream_v1_array:
  assumes "getprop info ''audioStreams'' = Inr (JArr xs)"
    and "\<forall>x\<in>set xs. x \<noteq> JNull \<and> x \<noteq> JUndef"
  shows "resolveStream_v1 (Body info) =
         Inr (case find (\<lambda>x. \<not> truthy (getprop_opt x ''videoOnly'')) xs of
                None \<Rightarrow> None
              | Some a \<Rightarrow>
                  if truthy a \<and> truthy (getprop_opt a ''url'')
                  then Some (getprop_opt a ''url'') else None)"
proof (cases "find (\<lambda>x. \<not> truthy (getprop_opt x ''videoOnly'')) xs")
  case None
  with assms show ?thesis
    by (simp add: resolveStream_v1_def js_or_def findE_no_null)
next
  case (Some a)
  show ?thesis
  proof (cases "truthy a")
    case True
    with Some assms show ?thesis
      by (simp add: resolveStream_v1_def js_or_def findE_no_null getprop_truthy)
  next
    case False
    with Some assms show ?thesis
      by (simp add: resolveStream_v1_def js_or_def findE_no_null)
  qed
qed

lemma resolveStream_v2_array:
  assumes "getprop_opt data ''audioStreams'' = JArr (x # xs)"
  shows "resolveStream_v2 (Body data) =
         (if truthy x \<and> truthy (getprop_opt x ''url'')
          then Inr (getprop_opt x ''url'') else Inl NoAudioStream)"
proof (cases "truthy x")
  case True
  with assms show ?thesis
    by (simp add: resolveStream_v2_def js_or_def Let_def getprop_truthy)
next
  case False
  with assms show ?thesis
    by (simp add: resolveStream_v2_def js_or_def Let_def)
qed

lemma playTrack_v2_source:
  assumes "source track = ''youtube''" and "resolveStream_v2 res = Inr url"
  shows "audioSrc (playTrack_v2 res (Some track) s) = url"
  using assms by (simp add: playTrack_v2_def Let_def showMini_def)

lemma playTrack_v1_source:
  assumes "source track = ''youtube''"
  shows "resolveStream_v1 res = Inr (Some url) \<Longrightarrow> audioSrc (playTrack_v1 res track s) = url"
    and "resolveStream_v1 res = Inr None \<Longrightarrow> audioSrc (playTrack_v1 res track s) = audioSrc s"
  using assms by (simp_all add: playTrack_v1_def Let_def)

text \<open>
  Claim C2, as amended. The first revision selects the first entry of \<open>audioStreams\<close>
  whose \<open>videoOnly\<close> is not set and assigns its url when it has one; when every entry is
  video only nothing is assigned and the audio source stays what it was. The second
  revision takes the first entry of the list whatever its \<open>videoOnly\<close> and uses its url,
  or gives up when it has none. In both, the url selected becomes the audio source.
\<close>

theorem stream_selection_per_revision:
  "(getprop info ''audioStreams'' = Inr (JArr xs) \<and> (\<forall>x\<in>set xs. x \<noteq> JNull \<and> x \<noteq> JUndef) \<longrightarrow>
      resolveStream_v1 (Body info) =
        Inr (case find (\<lambda>x. \<not> truthy (getprop_opt x ''videoOnly'')) xs of
               None \<Rightarrow> None
             | Some a \<Rightarrow>
                 if truthy a \<and> truthy (getprop_opt a ''url'')
                 then Some (getprop_opt a ''url'') else None)) \<and>
   (getprop_opt data ''audioStreams'' = JArr (y # ys) \<longrightarrow>
      resolveStream_v2 (Body data) =
        (if truthy y \<and> truthy (getprop_opt y ''url'')
         then Inr (getprop_opt y ''url'') else Inl NoAudioStream)) \<and>
   (source track = ''youtube'' \<and> resolveStream_v1 res = Inr (Some url) \<longrightarrow>
      audioSrc (playTrack_v1 res track s) = url) \<and>
   (source track = ''youtube'' \<and> resolveStream_v1 res = Inr None \<longrightarrow>
      audioSrc (playTrack_v1 res track s) = audioSrc s) \<and>
   (source track = ''youtube'' \<and> resolveStream_v2 res = Inr url \<longrightarrow>
      audioSrc (playTrack_v2 res (Some track) s) = url)"
  by (simp add: resolveStream_v1_array resolveStream_v2_array playTrack_v1_source
      playTrack_v2_source)

theorem stream_selection_per_revision_witness:
  "resolveStream_v1 exampleStreams = Inr (Some (JStr ''https://p.example/audio'')) \<and>
   resolveStream_v2 exampleStreams = Inr (JStr ''https://p.example/video'') \<and>
   audioSrc (playTrack_v1 exampleStreams exampleYoutube examplePlayer) = JStr ''https://p.example/audio'' \<and>
   audioSrc (playTrack_v2 exampleStreams (Some exampleYoutube) examplePlayer) = JStr ''https://p.example/video''"
proof -
  let ?xs = "[JObj [(''url'', JStr ''https://p.example/video''), (''videoOnly'', JBool True)],
      JObj [(''url'', JStr ''https://p.example/audio''), (''videoOnly'', JBool False)]]"
  let ?info = "JObj [(''audioStreams'', JArr ?xs)]"
  have h1: "getprop ?info ''audioStreams'' = Inr (JArr ?xs)" by simp
  have h2: "\<forall>x\<in>set ?xs. x \<noteq> JNull \<and> x \<noteq> JUndef" by simp
  have h3: "getprop_opt ?info ''audioStreams'' = JArr ?xs" by (simp add: getprop_opt_def)
  have y: "source exampleYoutube = ''youtube''" by (simp add: exampleYoutube_def)
  note inst = stream_selection_per_revision [of ?info ?xs ?info "hd ?xs" "tl ?xs" exampleYoutube]
  from inst [of exampleStreams "JStr ''https://p.example/audio''" examplePlayer] h1 h2 h3 y
  have v1: "resolveStream_v1 exampleStreams = Inr (Some (JStr ''https://p.example/audio''))"
    and v2: "resolveStream_v2 exampleStreams = Inr (JStr ''https://p.example/video'')"
    by (simp_all add: exampleStreams_def getprop_opt_def)
  from inst [of exampleStreams "JStr ''https://p.example/audio''" examplePlayer] v1 y
  have s1: "audioSrc (playTrack_v1 exampleStreams exampleYoutube examplePlayer) = JStr ''https://p.example/audio''"
    by simp
  from inst [of exampleStreams "JStr ''https://p.example/video''" examplePlayer] v2 y
  have s2: "audioSrc (playTrack_v2 exampleStreams (Some exampleYoutube) examplePlayer) = JStr ''https://p.example/video''"
    by simp
  from v1 v2 s1 s2 show ?thesis by simp
qed

text \<open>With a video-only entry first and an audio entry second the second revision takes
  the video-only one; with only a video-only entry the first revision selects nothing.\<close>

theorem stream_selection_differs_from_claim:
  "resolveStream_v2 exampleStreams = Inr (JStr ''https://p.example/video'') \<and>
   resolveStream_v1 (Body (JObj [(''audioStreams'', JArr
     [JObj [(''url'', JStr ''https://p.example/video''), (''videoOnly'', JBool True)]])])) = Inr None"
  by (simp add: exampleStreams_def resolveStream_v2_def resolveStream_v1_def js_or_def
      getprop_opt_def notVideoOnly_def Let_def)

lemma playTrack_v2_failure:
  assumes "source track = ''youtube''" and "resolveStream_v2 res = Inl e"
    and "0 \<le> currentTrackIndex s"
  shows "playTrack_v2 res (Some track) s =
         s\<lparr>currentTrack := Some track, audioPaused := True, audioSrc := JStr ''''\<rparr>"
  using assms by (simp add: playTrack_v2_def Let_def)

lemma playTrack_v1_failure:
  assumes "source track = ''youtube''" and "resolveStream_v1 res = Inl e"
    and "0 \<le> currentTrackIndex s"
  shows "playTrack_v1 res track s = s\<lparr>currentTrack := Some track, playerShown := True\<rparr>"
  using assms by (simp add: playTrack_v1_def Let_def)

lemma selectItem_v2_failure:
  assumes "resolveStream_v2 res = Inl e" and "index < length (currentPlaylist s)"
    and "source (currentPlaylist s ! index) = ''youtube''"
  shows "selectItem_v2 res index s =
         s\<lparr>currentTrack := Some (currentPlaylist s ! index), currentTrackIndex := int index,
           audioPaused := True, audioSrc := JStr ''''\<rparr>"
  using assms by (simp add: selectItem_v2_def playTrack_v2_failure)

lemma playNext_v2_failure:
  assumes "resolveStream_v2 res = Inl e" and "currentPlaylist s \<noteq> []" and "\<not> isShuffle s"
    and "- 1 \<le> currentTrackIndex s"
    and "source (currentPlaylist s !
           nat ((currentTrackIndex s + 1) mod int (length (currentPlaylist s)))) = ''youtube''"
  shows "playNext_v2 r res s =
         s\<lparr>currentTrack := Some (currentPlaylist s !
               nat ((currentTrackIndex s + 1) mod int (length (currentPlaylist s)))),
           currentTrackIndex := (currentTrackIndex s + 1) mod int (length (currentPlaylist s)),
           audioPaused := True, audioSrc := JStr ''''\<rparr>"
proof -
  let ?n = "int (length (currentPlaylist s))"
  let ?i = "(currentTrackIndex s + 1) mod ?n"
  from assms(2) have "0 < ?n" by simp
  then have idx: "0 \<le> ?i" "?i < ?n" by simp_all
  then show ?thesis
    using assms
    by (simp add: playNext_v2_def Let_def jsRem_next at_index_Some playTrack_v2_failure)
qed

text \<open>
  Claim C3, as amended. When the Piped stream lookup of the second revision fails
  (rejected fetch, or no entry with a url), loading ends there: no stream url is
  assigned, playback is not started and the panels are not touched. By then
  \<open>currentTrack\<close> is the selected track, the cursor is the selected index (or the next
  one, from \<open>playNext\<close>), and the audio element has been paused and its source emptied.
\<close>

theorem resolution_failure_effect:
  "(resolveStream_v2 res = Inl e \<and> index < length (currentPlaylist s) \<and>
    source (currentPlaylist s ! index) = ''youtube'' \<longrightarrow>
      selectItem_v2 res index s =
        s\<lparr>currentTrack := Some (currentPlaylist s ! index), currentTrackIndex := int index,
          audioPaused := True, audioSrc := JStr ''''\<rparr>) \<and>
   (resolveStream_v2 res = Inl e \<and> currentPlaylist s \<noteq> [] \<and> \<not> isShuffle s \<and>
    - 1 \<le> currentTrackIndex s \<and>
    source (currentPlaylist s !
      nat ((currentTrackIndex s + 1) mod int (length (currentPlaylist s)))) = ''youtube'' \<longrightarrow>
      playNext_v2 r res s =
        s\<lparr>currentTrack := Some (currentPlaylist s !
              nat ((currentTrackIndex s + 1) mod int (length (currentPlaylist s)))),
          currentTrackIndex := (currentTrackIndex s + 1) mod int (length (currentPlaylist s)),
          audioPaused := True, audioSrc := JStr ''''\<rparr>) \<and>
   resolveStream_v2 Rejected = Inl FetchError \<and>
   resolveStream_v2 (Body JNull) = Inl NoAudioStream \<and>
   resolveStream_v2 (Body (JObj [(''audioStreams'', JArr [])])) = Inl NoAudioStream"
proof (intro conjI impI)
  assume "resolveStream_v2 res = Inl e \<and> index < length (currentPlaylist s) \<and>
    source (currentPlaylist s ! index) = ''youtube''"
  then show "selectItem_v2 res index s =
        s\<lparr>currentTrack := Some (currentPlaylist s ! index), currentTrackIndex := int index,
          audioPaused := True, audioSrc := JStr ''''\<rparr>"
    by (elim conjE) (rule selectItem_v2_failure)
next
  assume "resolveStream_v2 res = Inl e \<and> currentPlaylist s \<noteq> [] \<and> \<not> isShuffle s \<and>
    - 1 \<le> currentTrackIndex s \<and>
    source (currentPlaylist s !
      nat ((currentTrackIndex s + 1) mod int (length (currentPlaylist s)))) = ''youtube''"
  then show "playNext_v2 r res s =
        s\<lparr>currentTrack := Some (currentPlaylist s !
              nat ((currentTrackIndex s + 1) mod int (length (currentPlaylist s)))),
          currentTrackIndex := (currentTrackIndex s + 1) mod int (length (currentPlaylist s)),
          audioPaused := True, audioSrc := JStr ''''\<rparr>"
    by (elim conjE) (rule playNext_v2_failure)
next
  show "resolveStream_v2 Rejected = Inl FetchError"
    by (simp add: resolveStream_v2_def)
  show "resolveStream_v2 (Body JNull) = Inl NoAudioStream"
    by (simp add: resolveStream_v2_def getprop_opt_def js_or_def)
  show "resolveStream_v2 (Body (JObj [(''audioStreams'', JArr [])])) = Inl NoAudioStream"
    by (simp add: resolveStream_v2_def getprop_opt_def js_or_def)
qed

theorem resolution_failure_effect_witness:
  "selectItem_v2 Rejected 1 examplePlayer =
     examplePlayer\<lparr>currentTrack := Some exampleYoutube, currentTrackIndex := 1,
       audioPaused := True, audioSrc := JStr ''''\<rparr> \<and>
   playNext_v2 0 Rejected (examplePlayer\<lparr>isShuffle := False\<rparr>) =
     examplePlayer\<lparr>isShuffle := False, currentTrack := Some exampleYoutube,
       currentTrackIndex := 1, audioPaused := True, audioSrc := JStr ''''\<rparr>"
proof -
  have f: "resolveStream_v2 Rejected = Inl FetchError"
    by (simp add: resolveStream_v2_def)
  have y: "source exampleYoutube = ''youtube''"
    by (simp add: exampleYoutube_def)
  from resolution_failure_effect [of Rejected FetchError 1 examplePlayer] f y
  have a: "selectItem_v2 Rejected 1 examplePlayer =
     examplePlayer\<lparr>currentTrack := Some exampleYoutube, currentTrackIndex := 1,
       audioPaused := True, audioSrc := JStr ''''\<rparr>"
    by (simp add: examplePlayer_def)
  from resolution_failure_effect [of Rejected FetchError _ "examplePlayer\<lparr>isShuffle := False\<rparr>" 0] f y
  have b: "playNext_v2 0 Rejected (examplePlayer\<lparr>isShuffle := False\<rparr>) =
     examplePlayer\<lparr>isShuffle := False, currentTrack := Some exampleYoutube,
       currentTrackIndex := 1, audioPaused := True, audioSrc := JStr ''''\<rparr>"
    by (simp add: examplePlayer_def)
  from a b show ?thesis by simp
qed

text \<open>Selecting the second track while the first plays, with a lookup that fails: the
  cursor, the current track and the audio element all change.\<close>

theorem resolution_failure_changes_state:
  "currentTrackIndex examplePlayer = 0 \<and>
   currentTrackIndex (selectItem_v2 Rejected 1 examplePlayer) = 1 \<and>
   currentTrack examplePlayer = Some exampleAudius \<and>
   currentTrack (selectItem_v2 Rejected 1 examplePlayer) = Some exampleYoutube \<and>
   exampleYoutube \<noteq> exampleAudius \<and>
   \<not> audioPaused examplePlayer \<and>
   audioPaused (selectItem_v2 Rejected 1 examplePlayer) \<and>
   audioSrc examplePlayer = JStr ''https://a.example/stream'' \<and>
   audioSrc (selectItem_v2 Rejected 1 examplePlayer) = JStr '''' \<and>
   currentTrackIndex (playNext_v2 0 Rejected (examplePlayer\<lparr>isShuffle := False\<rparr>)) = 1"
  by (simp add: examplePlayer_def exampleAudius_def exampleYoutube_def selectItem_v2_def
      playNext_v2_def playTrack_v2_def resolveStream_v2_def Let_def jsRem_def at_index_def)

text \<open>
  Claim C4, as amended. Closing pauses the audio, sets its position to 0 and hides the
  player (both the mini and the full player in the second revision, the one panel in
  the first); \<open>currentTrack\<close>, \<open>currentTrackIndex\<close> and the playlist keep their values.
\<close>

theorem close_effect:
  "audioPaused (close_v2 s) \<and> audioCurrentTime (close_v2 s) = 0 \<and>
   miniHidden (close_v2 s) \<and> fullHidden (close_v2 s) \<and>
   currentTrack (close_v2 s) = currentTrack s \<and>
   currentTrackIndex (close_v2 s) = currentTrackIndex s \<and>
   currentPlaylist (close_v2 s) = currentPlaylist s \<and>
   audioPaused (close_v1 s) \<and> audioCurrentTime (close_v1 s) = 0 \<and>
   \<not> playerShown (close_v1 s) \<and> \<not> isPlayerExpanded (close_v1 s) \<and>
   currentTrack (close_v1 s) = currentTrack s \<and>
   currentTrackIndex (close_v1 s) = currentTrackIndex s \<and>
   currentPlaylist (close_v1 s) = currentPlaylist s"
  by (simp add: close_v1_def close_v2_def)

text \<open>After closing, the cursor is still 0 and the current track is still set.\<close>

theorem close_keeps_track_and_cursor:
  "currentTrackIndex (close_v2 examplePlayer) = 0 \<and>
   currentTrack (close_v2 examplePlayer) = Some exampleAudius \<and>
   currentTrackIndex (close_v1 examplePlayer) = 0 \<and>
   currentTrack (close_v1 examplePlayer) = Some exampleAudius \<and>
   (0::int) \<noteq> - 1"
  by (simp add: close_v1_def close_v2_def examplePlayer_def)

end
